theory Spec2Isabelle
  imports Main "HOL-Library.Word"
begin

unbundle bit_operations_syntax

section \<open>pmdock: data model\<close>

text \<open>
  The embedding follows \<^verbatim>\<open>pmdock.c\<close>. A C \<^verbatim>\<open>unsigned\<close> is a
  \<open>32 word\<close>, an X resource id (\<^verbatim>\<open>Window\<close>, an \<^verbatim>\<open>unsigned long\<close>) is a
  \<open>64 word\<close> with \<^verbatim>\<open>None\<close> being 0, and a C \<^verbatim>\<open>int\<close> is a HOL \<open>int\<close> that is
  always produced through \<open>sint\<close> of a 32-bit word, so it carries the two's complement
  value the conversion from \<^verbatim>\<open>unsigned\<close> yields.
\<close>

type_synonym Window = "64 word"
type_synonym unsigned = "32 word"

record size =
  width :: unsigned
  height :: unsigned

record position =
  x :: int
  y :: int

text \<open>
  \<^verbatim>\<open>TILE_TYPE_APP\<close> is 0 and \<^verbatim>\<open>TILE_TYPE_LAUNCHER\<close> is 1; a tile that
  \<^verbatim>\<open>calloc\<close> zeroed has the first.
\<close>

datatype tile_type = TILE_TYPE_APP | TILE_TYPE_LAUNCHER

text \<open>
  An \<^verbatim>\<open>Imlib_Image\<close> is a handle; what the program reads from it is its decoded
  width and height.
\<close>

record Imlib_Image =
  image_path :: string
  image_width :: unsigned
  image_height :: unsigned

record tile =
  command :: "string option"
  icon :: "Imlib_Image option"
  pid :: int
  res_name :: "string option"
  type :: tile_type
  window :: Window

text \<open>
  The global \<^verbatim>\<open>struct app\<close>. The array \<^verbatim>\<open>tiles\<close> and its length
  \<^verbatim>\<open>tile_count\<close> are one list; the display pointer and screen number are left out.
\<close>

record app =
  above_all :: bool
  all_desktops :: bool
  bg_image :: "Imlib_Image option"
  daemon_mode :: bool
  dock_window :: Window
  horizontal :: bool
  initial_x :: int
  initial_y :: int
  mwm_decor :: "64 word"
  mwm_funcs :: "64 word"
  root_window :: Window
  tiles :: "tile list"
  tile_size :: unsigned
  verbose :: bool

definition tile_count :: "app \<Rightarrow> nat" where
  "tile_count a = length (tiles a)"

section \<open>Tile geometry\<close>

text \<open>
  \<^verbatim>\<open>index * app.tile_size\<close> is an unsigned 32-bit product; storing it in the
  \<^verbatim>\<open>int\<close> fields of \<^verbatim>\<open>struct position\<close> reads it as two's complement.
\<close>

definition get_tile_position :: "app \<Rightarrow> unsigned \<Rightarrow> position" where
  "get_tile_position a index =
     \<lparr> x = sint (if horizontal a then index * tile_size a else 0),
       y = sint (if horizontal a then 0 else index * tile_size a) \<rparr>"

section \<open>Calls into the window system, libc and the image library\<close>

text \<open>
  Everything the program does to the outside is an entry of a trace, in program order.
  A line written to standard error carries its prefix and its format string; the
  arguments of the format are not rendered. \<^verbatim>\<open>XFree\<close> and the atom lookups are
  not recorded.
\<close>

datatype prop_data = Longs "64 word list" | Atom string

datatype xcall =
    XOpenDisplay
  | XSetErrorHandler
  | XSetIOErrorHandler
  | XGetClassHint Window
  | XGetWindowProperty Window string
  | XGetWMHints Window
  | XGetGeometry Window
  | XSetWindowBorderWidth Window unsigned
  | XUnmapWindow Window
  | XReparentWindow Window Window int int
  | XMapRaised Window
  | XMapWindow Window
  | XMoveResizeWindow Window int int unsigned unsigned
  | XFlush
  | XSelectInput Window "64 word"
  | XCreateSimpleWindow Window int int unsigned unsigned
  | XStoreName Window string
  | XChangeProperty Window string prop_data
  | XSetClassHint Window string string
  | XGetErrorText "8 word"
  | imlib_render_image_on_drawable Window "Imlib_Image option" int int
  | usleep nat
  | kill_getppid_SIGUSR1
  | fork_daemon
  | fork_execl_sh "string option"
  | setsid
  | open_dev_null
  | signal_SIGTERM
  | stderr string

definition newline :: string where
  "newline = [CHR 0x0A]"

definition USAGE :: string where
  "USAGE = concat (map (\<lambda>l. l @ newline)
     [''Usage: pmdock [OPTIONS]'',
      [],
      ''Options:'',
      ''  -a            Show on all virtual desktops'',
      ''  -A            Show on top of all windows'',
      ''  -x POSITION   X coordinate (default: 0)'',
      ''  -y POSITION   Y coordinate (default: 0)'',
      ''  -s SIZE       Tile size in pixels (default: 64)'',
      ''  -b IMAGE      Tile background image (default: tile-default.png)'',
      ''  -H            Use horizontal layout'',
      ''  -D DECOR      Window decorations hints (default: 0x00)'',
      ''  -f FUNCS      Window functions hints (default: 0x00)'',
      ''  -d            Daemonize after swallowing all dockapps'',
      ''  -r NAME       Resource name for dockapp in the next tile'',
      ''  -i ICON       Icon path for launcher in the next tile'',
      ''  -c COMMAND    Command to execute in the next tile'',
      ''  -t TYPE       Add tile (dockapp or launcher)'',
      ''  -v            Show debug messages'',
      ''  -h            Display this help message''])"

definition pm_fprintf :: "string \<Rightarrow> string \<Rightarrow> xcall list" where
  "pm_fprintf prefix fmt = [stderr (prefix @ fmt @ newline)]"

definition pm_debug :: "app \<Rightarrow> string \<Rightarrow> xcall list" where
  "pm_debug a fmt = (if \<not> verbose a then [] else pm_fprintf ''pmdock (DEBUG): '' fmt)"

definition pm_warn :: "string \<Rightarrow> xcall list" where
  "pm_warn fmt = pm_fprintf ''pmdock (WARNING): '' fmt"

definition pm_error :: "string \<Rightarrow> xcall list" where
  "pm_error fmt = pm_fprintf ''pmdock (ERROR): '' fmt"

text \<open>
  A function that can end the process returns \<open>Inl (status, output)\<close> there:
  the exit status and the calls made before \<^verbatim>\<open>exit\<close>. \<open>pm_assert_failed\<close> is
  \<^verbatim>\<open>pm_assert\<close> with a false condition; with a true one it does nothing.
  \<open>exit_usage\<close> and \<open>pm_assert_failed\<close> take the calls made so far.
\<close>

type_synonym exit = "int \<times> xcall list"

definition pm_assert_failed :: "xcall list \<Rightarrow> string \<Rightarrow> exit" where
  "pm_assert_failed tr fmt = (1, tr @ pm_fprintf ''pmdock (ERROR): '' fmt)"

definition exit_usage :: "xcall list \<Rightarrow> int \<Rightarrow> exit" where
  "exit_usage tr status = (status, tr @ [stderr USAGE])"

section \<open>What the window system answers\<close>

record XWMHints =
  flags :: "64 word"
  icon_window :: Window

text \<open>\<^verbatim>\<open>IconWindowHint\<close> is \<^verbatim>\<open>(1L << 3)\<close> in \<^verbatim>\<open>X11/Xutil.h\<close>.\<close>

definition IconWindowHint :: "64 word" where
  "IconWindowHint = push_bit 3 1"

text \<open>
  The answers of the X server while one event is handled: the class hint of a window
  (resource name and class), whether the root window carries
  \<^verbatim>\<open>_NET_SUPPORTING_WM_CHECK\<close>, the WM hints of a window at the first, second, ...
  query (a dockapp sets them asynchronously, so the answers may differ), and the
  geometry of a window.
\<close>

record xenv =
  class_hint :: "Window \<Rightarrow> (string \<times> string) option"
  wm_check :: bool
  wm_hints :: "nat \<Rightarrow> Window \<Rightarrow> XWMHints option"
  geometry :: "Window \<Rightarrow> size option"

definition check_window_manager :: "app \<Rightarrow> xenv \<Rightarrow> bool \<times> xcall list" where
  "check_window_manager a env =
     (wm_check env, [XGetWindowProperty (root_window a) ''_NET_SUPPORTING_WM_CHECK''])"

definition get_icon_window :: "xenv \<Rightarrow> nat \<Rightarrow> Window \<Rightarrow> Window" where
  "get_icon_window env n w =
     (case wm_hints env n w of
        None \<Rightarrow> 0
      | Some hints \<Rightarrow> if flags hints AND IconWindowHint \<noteq> 0 then icon_window hints else 0)"

text \<open>
  The loop \<^verbatim>\<open>for (int i = 0; i < 2; ++i)\<close> of \<^verbatim>\<open>get_icon_window_waiting\<close>,
  entered at \<open>i\<close>. Leaving it at \<open>i = 2\<close> returns the last answer, which was
  \<^verbatim>\<open>None\<close>.
\<close>

function get_icon_window_loop :: "app \<Rightarrow> xenv \<Rightarrow> Window \<Rightarrow> nat \<Rightarrow> Window \<times> xcall list" where
  "get_icon_window_loop a env w i =
     (if i < 2 then
        (let ret = get_icon_window env i w in
         if ret \<noteq> 0 then (ret, [XGetWMHints w])
         else (let (r, tr) = get_icon_window_loop a env w (Suc i)
               in (r, [XGetWMHints w] @ pm_debug a ''Waiting for icon window of 0x%lx''
                        @ [usleep 100000] @ tr)))
      else (0, []))"
  by pat_completeness auto
termination
  by (relation "measure (\<lambda>(a, env, w, i). 2 - i)") auto

declare get_icon_window_loop.simps [simp del]

definition get_icon_window_waiting :: "app \<Rightarrow> xenv \<Rightarrow> Window \<Rightarrow> Window \<times> xcall list" where
  "get_icon_window_waiting a env w = get_icon_window_loop a env w 0"

definition get_window_size :: "app \<Rightarrow> xenv \<Rightarrow> Window \<Rightarrow> size \<times> xcall list" where
  "get_window_size a env w =
     (case geometry env w of
        None \<Rightarrow> (\<lparr> width = 0, height = 0 \<rparr>,
                 [XGetGeometry w] @ pm_debug a ''Failed to get geometry of window 0x%lx'')
      | Some ret \<Rightarrow> (ret,
                 [XGetGeometry w] @ pm_debug a ''Window 0x%lx has size %ux%u, border %u, depth %u''))"

section \<open>The swallowing protocol\<close>

text \<open>
  The loop of \<^verbatim>\<open>check_all_dockapps_swallowed\<close> over the tiles, with its early
  \<^verbatim>\<open>return 0\<close>.
\<close>

fun check_all_loop :: "tile list \<Rightarrow> bool" where
  "check_all_loop [] = True"
| "check_all_loop (t # ts) =
     (if type t = TILE_TYPE_APP \<and> window t = 0 then False else check_all_loop ts)"

definition check_all_dockapps_swallowed :: "app \<Rightarrow> bool" where
  "check_all_dockapps_swallowed a = check_all_loop (tiles a)"

text \<open>
  \<^verbatim>\<open>swallow_dockapp\<close> returns the application state it leaves and the calls it made.
  \<^verbatim>\<open>tile_pos.x + (app.tile_size - size.width) / 2\<close> is computed in
  \<^verbatim>\<open>unsigned\<close> (the subtraction wraps, the division is unsigned) and stored in an
  \<^verbatim>\<open>int\<close>. \<^verbatim>\<open>(int)app.tile_size * 2\<close> is a 32-bit signed product: it wraps
  in two's complement, as the compiled code does. The caller passes an index below the
  tile count.
\<close>

definition swallow_dockapp :: "app \<Rightarrow> xenv \<Rightarrow> Window \<Rightarrow> nat \<Rightarrow> app \<times> xcall list" where
  "swallow_dockapp a env main_window index =
     (let tr_start = pm_debug a ''Swallowing dockapp with main window 0x%lx at index %d'';
          (wm_running, tr_wm) = check_window_manager a env;
          tr_wait = (if wm_running
                     then pm_warn ''Window manager detected, swallowing dockapp with workaround''
                          @ [usleep 100000]
                     else []);
          (icon_window, tr_icon) = get_icon_window_waiting a env main_window
      in if icon_window = 0
         then (a, tr_start @ tr_wm @ tr_wait @ tr_icon
                  @ pm_warn ''Window 0x%lx has no icon window, skipping'')
         else
           (let a' = a\<lparr> tiles := (tiles a)[index := (tiles a ! index)\<lparr> window := icon_window \<rparr>] \<rparr>;
                tr_border = [XSetWindowBorderWidth icon_window 0];
                (size, tr_size) = get_window_size a' env icon_window;
                tile_pos = get_tile_position a' (of_nat index);
                icon_x = sint (word_of_int (x tile_pos) + (tile_size a' - width size) div 2);
                icon_y = sint (word_of_int (y tile_pos) + (tile_size a' - height size) div 2);
                main_x = (if horizontal a' then icon_x else sint (tile_size a' * 2));
                main_y = (if horizontal a' then sint (tile_size a' * 2) else icon_y);
                tr_workaround =
                  (if wm_running
                   then [XUnmapWindow main_window,
                         XUnmapWindow icon_window,
                         XFlush,
                         usleep 50000,
                         XReparentWindow main_window (dock_window a') main_x main_y,
                         XReparentWindow icon_window (dock_window a') icon_x icon_y,
                         XFlush,
                         usleep 50000]
                   else []);
                tr_reparent =
                  [XReparentWindow main_window (dock_window a') main_x main_y,
                   XReparentWindow icon_window (dock_window a') icon_x icon_y,
                   XMapRaised main_window,
                   XMapRaised icon_window,
                   XFlush]
                  @ pm_debug a' ''Swallowed window 0x%lx at %ux%u'';
                tr_done =
                  (if check_all_dockapps_swallowed a'
                   then pm_debug a' ''All dockapps swallowed''
                        @ [XSelectInput (root_window a') 0]
                        @ (if daemon_mode a' then [kill_getppid_SIGUSR1] else [])
                   else [])
            in (a', tr_start @ tr_wm @ tr_wait @ tr_icon @ tr_border @ tr_size
                    @ tr_workaround @ tr_reparent @ tr_done)))"

section \<open>Event handlers\<close>

record XErrorEvent =
  error_code :: "8 word"
  request_code :: "8 word"
  minor_code :: "8 word"
  resourceid :: "64 word"

text \<open>
  From \<^verbatim>\<open>X11/X.h\<close> and \<^verbatim>\<open>X11/Xproto.h\<close>: the error code \<^verbatim>\<open>BadWindow\<close> and the
  major opcodes of two requests.
\<close>

definition BadWindow :: "8 word" where
  "BadWindow = 3"

definition X_ReparentWindow :: "8 word" where
  "X_ReparentWindow = 7"

definition X_GetProperty :: "8 word" where
  "X_GetProperty = 20"

definition handle_error_event :: "app \<Rightarrow> XErrorEvent \<Rightarrow> int \<times> xcall list" where
  "handle_error_event a error =
     (if request_code error = 20 then (0, [])
      else (0, [XGetErrorText (error_code error)]
               @ pm_debug a ''X11 Error (%d, %d, 0x%lx): %s''))"

text \<open>
  The loop of \<^verbatim>\<open>handle_create_event\<close>: the index of the first tile with no window
  and a resource name equal to the created window's, where the loop calls
  \<^verbatim>\<open>swallow_dockapp\<close> and breaks; \<open>i\<close> is the index of the head of the list.
\<close>

fun create_loop :: "tile list \<Rightarrow> string \<Rightarrow> nat \<Rightarrow> nat option" where
  "create_loop [] rn i = None"
| "create_loop (t # ts) rn i =
     (if window t = 0 \<and> (case res_name t of None \<Rightarrow> False | Some r \<Rightarrow> rn = r)
      then Some i
      else create_loop ts rn (Suc i))"

definition handle_create_event :: "app \<Rightarrow> xenv \<Rightarrow> Window \<Rightarrow> app \<times> xcall list" where
  "handle_create_event a env w =
     (case class_hint env w of
        None \<Rightarrow> (a, [XGetClassHint w])
      | Some (rn, rc) \<Rightarrow>
          (let tr = [XGetClassHint w] @ pm_debug a (''Created window 0x%lx with res_name '%s'' @ [CHR 0x27])
           in case create_loop (tiles a) rn 0 of
                None \<Rightarrow> (a, tr)
              | Some i \<Rightarrow> (let (a', tr') = swallow_dockapp a env w i in (a', tr @ tr'))))"

text \<open>
  \<^verbatim>\<open>handle_button_press_event\<close>, seen from the panel process: the child that
  \<^verbatim>\<open>fork\<close> creates runs the command.
\<close>

fun button_press_loop :: "tile list \<Rightarrow> Window \<Rightarrow> xcall list" where
  "button_press_loop [] w = []"
| "button_press_loop (t # ts) w =
     (if type t = TILE_TYPE_LAUNCHER \<and> w = window t
      then [fork_execl_sh (command t)]
      else button_press_loop ts w)"

definition handle_button_press_event :: "app \<Rightarrow> Window \<Rightarrow> xcall list" where
  "handle_button_press_event a w = button_press_loop (tiles a) w"

text \<open>
  The loop of \<^verbatim>\<open>handle_expose_event\<close>; \<open>i\<close> is the index of the head of the list.
  A tile without an image has the decoded size 0.
\<close>

fun expose_loop :: "app \<Rightarrow> Window \<Rightarrow> tile list \<Rightarrow> nat \<Rightarrow> xcall list" where
  "expose_loop a w [] i = []"
| "expose_loop a w (t # ts) i =
     (let pos = get_tile_position a (of_nat i) in
      if w = dock_window a \<and> type t \<noteq> TILE_TYPE_LAUNCHER
      then imlib_render_image_on_drawable (dock_window a) (bg_image a) (x pos) (y pos)
           # expose_loop a w ts (Suc i)
      else if w = window t \<and> type t = TILE_TYPE_LAUNCHER
      then (let width = (case icon t of None \<Rightarrow> 0 | Some im \<Rightarrow> image_width im);
                height = (case icon t of None \<Rightarrow> 0 | Some im \<Rightarrow> image_height im);
                x = (if width < tile_size a then sint ((tile_size a - width) div 2) else 0);
                y = (if height < tile_size a then sint ((tile_size a - height) div 2) else 0)
            in [imlib_render_image_on_drawable (window t) (bg_image a) 0 0,
                imlib_render_image_on_drawable (window t) (icon t) x y]
               @ expose_loop a w ts (Suc i))
      else expose_loop a w ts (Suc i))"

definition handle_expose_event :: "app \<Rightarrow> Window \<Rightarrow> xcall list" where
  "handle_expose_event a w = expose_loop a w (tiles a) 0"

section \<open>The event loop\<close>

datatype XEvent = CreateNotify Window | Expose Window | ButtonPress Window | OtherEvent

text \<open>The \<^verbatim>\<open>switch\<close> of \<^verbatim>\<open>main\<close> on the event type.\<close>

definition handle_event :: "app \<Rightarrow> xenv \<Rightarrow> XEvent \<Rightarrow> app \<times> xcall list" where
  "handle_event a env event =
     (case event of
        CreateNotify w \<Rightarrow> handle_create_event a env w
      | Expose w \<Rightarrow> (a, handle_expose_event a w)
      | ButtonPress w \<Rightarrow> (a, handle_button_press_event a w)
      | OtherEvent \<Rightarrow> (a, []))"

text \<open>
  The \<^verbatim>\<open>while (1)\<close> loop of \<^verbatim>\<open>main\<close> on the events that \<^verbatim>\<open>XNextEvent\<close>
  delivers, each with the answers the X server gives while it is handled. The loop never
  ends by itself; a run is looked at after any finite number of events.
\<close>

fun event_loop :: "app \<Rightarrow> (XEvent \<times> xenv) list \<Rightarrow> app \<times> xcall list" where
  "event_loop a [] = (a, [])"
| "event_loop a ((event, env) # events) =
     (let (a', tr) = handle_event a env event;
          (a'', tr') = event_loop a' events
      in (a'', tr @ tr'))"

section \<open>Configuration\<close>

text \<open>The initial value of the global \<^verbatim>\<open>app\<close>.\<close>

definition app_init :: app where
  "app_init =
     \<lparr> above_all = False, all_desktops = False, bg_image = None, daemon_mode = False,
       dock_window = 0, horizontal = False, initial_x = 0, initial_y = 0,
       mwm_decor = 0, mwm_funcs = 0, root_window = 0, tiles = [], tile_size = 64,
       verbose = False \<rparr>"

text \<open>
  What the C library, the allocator and the image library answer while the options are
  parsed.
\<close>

record sysenv =
  atoi :: "string \<Rightarrow> int"
  strtoul :: "string \<Rightarrow> 64 word"
  imlib_load_image :: "string \<Rightarrow> Imlib_Image option"
  calloc_ok :: bool

text \<open>The local variables of \<^verbatim>\<open>parse_opts\<close>, with the global \<^verbatim>\<open>app\<close>.\<close>

record parse_locals =
  the_app :: app
  pending_command :: "string option"
  pending_icon :: "string option"
  pending_resname :: "string option"
  bg_path :: string
  current_tile :: nat

definition DEFAULT_BG_PATH :: string where
  "DEFAULT_BG_PATH = ''tile-default.png''"

text \<open>The zeroed \<^verbatim>\<open>struct tile\<close> that \<^verbatim>\<open>calloc\<close> returns.\<close>

definition zero_tile :: tile where
  "zero_tile = \<lparr> command = None, icon = None, pid = 0, res_name = None,
                 type = TILE_TYPE_APP, window = 0 \<rparr>"

text \<open>
  The body of the second \<^verbatim>\<open>while\<close> loop of \<^verbatim>\<open>parse_opts\<close>: the
  \<^verbatim>\<open>switch\<close> on one result of \<^verbatim>\<open>getopt\<close>, the option character and
  \<^verbatim>\<open>optarg\<close>. An option that \<^verbatim>\<open>getopt\<close> rejects arrives as \<^verbatim>\<open>?\<close> and falls to
  \<^verbatim>\<open>default\<close>.
\<close>

definition parse_opt :: "sysenv \<Rightarrow> parse_locals \<Rightarrow> char \<times> string \<Rightarrow> exit + parse_locals" where
  "parse_opt env st oa =
     (let opt = fst oa; optarg = snd oa; a = the_app st in
      if opt = CHR ''A'' then Inr (st\<lparr> the_app := a\<lparr> above_all := True \<rparr> \<rparr>)
      else if opt = CHR ''a'' then Inr (st\<lparr> the_app := a\<lparr> all_desktops := True \<rparr> \<rparr>)
      else if opt = CHR ''v'' then Inr (st\<lparr> the_app := a\<lparr> verbose := True \<rparr> \<rparr>)
      else if opt = CHR ''x'' then Inr (st\<lparr> the_app := a\<lparr> initial_x := atoi env optarg \<rparr> \<rparr>)
      else if opt = CHR ''y'' then Inr (st\<lparr> the_app := a\<lparr> initial_y := atoi env optarg \<rparr> \<rparr>)
      else if opt = CHR ''s'' then
        (let size = atoi env optarg in
         if size \<le> 0 then Inl (exit_usage (pm_error ''Invalid tile size: %s'') 1)
         else Inr (st\<lparr> the_app := a\<lparr> tile_size := of_int size \<rparr> \<rparr>))
      else if opt = CHR ''H'' then Inr (st\<lparr> the_app := a\<lparr> horizontal := True \<rparr> \<rparr>)
      else if opt = CHR ''r'' then Inr (st\<lparr> pending_resname := Some optarg \<rparr>)
      else if opt = CHR ''i'' then Inr (st\<lparr> pending_icon := Some optarg \<rparr>)
      else if opt = CHR ''c'' then Inr (st\<lparr> pending_command := Some optarg \<rparr>)
      else if opt = CHR ''t'' then
        (if pending_command st = None
         then Inl (exit_usage (pm_error ''Error: -t requires preceding -c to specify command'') 1)
         else if optarg = ''dockapp'' then
           (if pending_resname st = None
            then Inl (exit_usage
                   (pm_error ''Error: dockapp type requires preceding -r to specify resource name'') 1)
            else Inr (st\<lparr> the_app := a\<lparr> tiles := (tiles a)[current_tile st :=
                             (tiles a ! current_tile st)\<lparr> type := TILE_TYPE_APP,
                                command := pending_command st,
                                res_name := pending_resname st \<rparr>] \<rparr>,
                          current_tile := current_tile st + 1,
                          pending_command := None, pending_icon := None,
                          pending_resname := None \<rparr>))
         else if optarg = ''launcher'' then
           (case pending_icon st of
              None \<Rightarrow> Inl (exit_usage
                   (pm_error ''Error: launcher type requires preceding -i to specify icon'') 1)
            | Some path \<Rightarrow>
                (case imlib_load_image env path of
                   None \<Rightarrow> Inl (pm_assert_failed [] ''Failed to load icon %s'')
                 | Some im \<Rightarrow>
                     Inr (st\<lparr> the_app := a\<lparr> tiles := (tiles a)[current_tile st :=
                             (tiles a ! current_tile st)\<lparr> type := TILE_TYPE_LAUNCHER,
                                command := pending_command st,
                                icon := Some im \<rparr>] \<rparr>,
                          current_tile := current_tile st + 1,
                          pending_command := None, pending_icon := None,
                          pending_resname := None \<rparr>)))
         else Inl (exit_usage
                (pm_error ''Error: invalid type '%s' (must be 'dockapp' or 'launcher')'') 1))
      else if opt = CHR ''b'' then Inr (st\<lparr> bg_path := optarg \<rparr>)
      else if opt = CHR ''d'' then Inr (st\<lparr> the_app := a\<lparr> daemon_mode := True \<rparr> \<rparr>)
      else if opt = CHR ''f'' then Inr (st\<lparr> the_app := a\<lparr> mwm_funcs := strtoul env optarg \<rparr> \<rparr>)
      else if opt = CHR ''D'' then Inr (st\<lparr> the_app := a\<lparr> mwm_decor := strtoul env optarg \<rparr> \<rparr>)
      else if opt = CHR ''h'' then Inl (exit_usage [] 0)
      else Inr st)"

fun parse_loop :: "sysenv \<Rightarrow> parse_locals \<Rightarrow> (char \<times> string) list \<Rightarrow> exit + parse_locals" where
  "parse_loop env st [] = Inr st"
| "parse_loop env st (oa # rest) =
     (case parse_opt env st oa of
        Inl e \<Rightarrow> Inl e
      | Inr st' \<Rightarrow> parse_loop env st' rest)"

text \<open>
  \<^verbatim>\<open>parse_opts\<close> on the sequence of results that \<^verbatim>\<open>getopt\<close> yields for the command
  line (the same in both passes): the first pass counts the \<^verbatim>\<open>-t\<close> options, the
  second fills the tiles.
\<close>

definition parse_opts :: "sysenv \<Rightarrow> (char \<times> string) list \<Rightarrow> exit + app" where
  "parse_opts env opts =
     (let n = length (filter (\<lambda>oa. fst oa = CHR ''t'') opts) in
      if n > 0 \<and> \<not> calloc_ok env then Inl (pm_assert_failed [] ''Failed to allocate memory'')
      else
        (case parse_loop env
                \<lparr> the_app = app_init\<lparr> tiles := replicate n zero_tile \<rparr>,
                  pending_command = None, pending_icon = None, pending_resname = None,
                  bg_path = DEFAULT_BG_PATH, current_tile = 0 \<rparr> opts of
           Inl e \<Rightarrow> Inl e
         | Inr st \<Rightarrow>
             if tile_count (the_app st) = 0
             then Inl (exit_usage (pm_error ''No tiles specified'') 1)
             else (case imlib_load_image env (bg_path st) of
                     None \<Rightarrow> Inl (pm_assert_failed [] ''Failed to load background image: %s'')
                   | Some im \<Rightarrow> Inr ((the_app st)\<lparr> bg_image := Some im \<rparr>))))"

section \<open>Start-up\<close>

text \<open>
  What the operating system and the X server answer during start-up: whether the
  \<^verbatim>\<open>fork\<close>, \<^verbatim>\<open>setsid\<close> and \<^verbatim>\<open>open\<close> of \<^verbatim>\<open>daemonize\<close> succeed, whether
  \<^verbatim>\<open>XAllocClassHint\<close> and \<^verbatim>\<open>XOpenDisplay\<close> do, the root window, the window that
  the n-th \<^verbatim>\<open>XCreateSimpleWindow\<close> returns, and the process id that the n-th
  \<^verbatim>\<open>fork\<close> of \<^verbatim>\<open>start_dockapps\<close> returns in the panel process.
\<close>

record startenv =
  fork_ok :: bool
  setsid_ok :: bool
  open_ok :: bool
  class_hint_ok :: bool
  display_ok :: bool
  display_root :: Window
  created :: "nat \<Rightarrow> Window"
  dockapp_pid :: "nat \<Rightarrow> int"

text \<open>Event masks of \<^verbatim>\<open>X11/X.h\<close>.\<close>

definition ButtonPressMask :: "64 word" where
  "ButtonPressMask = push_bit 2 1"

definition ExposureMask :: "64 word" where
  "ExposureMask = push_bit 15 1"

definition StructureNotifyMask :: "64 word" where
  "StructureNotifyMask = push_bit 17 1"

definition SubstructureNotifyMask :: "64 word" where
  "SubstructureNotifyMask = push_bit 19 1"

text \<open>
  \<^verbatim>\<open>daemonize\<close> in the child, which goes on to be the panel. The parent installs
  \<^verbatim>\<open>handle_sigusr1\<close> and pauses: \<open>daemonize_parent\<close> is its exit status, if it
  exits, given the calls of the child; \<^verbatim>\<open>handle_sigusr1\<close> is what ends it, with status
  0. Signals from outside the program are not part of the model.
\<close>

definition daemonize :: "app \<Rightarrow> startenv \<Rightarrow> exit + xcall list" where
  "daemonize a senv =
     (if \<not> fork_ok senv then Inl (pm_assert_failed [fork_daemon] ''Failed to fork'')
      else if \<not> setsid_ok senv
      then Inl (pm_assert_failed [fork_daemon, setsid] ''Failed to create new session'')
      else if \<not> open_ok senv
      then Inl (pm_assert_failed [fork_daemon, setsid, open_dev_null] ''Failed to open /dev/null'')
      else Inr ([fork_daemon, setsid, open_dev_null]
                @ pm_debug a ''Daemonized child process %d''))"

definition daemonize_parent :: "xcall list \<Rightarrow> int option" where
  "daemonize_parent child_calls =
     (if kill_getppid_SIGUSR1 \<in> set child_calls then Some 0 else None)"

definition setup_display :: "app \<Rightarrow> startenv \<Rightarrow> exit + app \<times> xcall list" where
  "setup_display a senv =
     (if \<not> display_ok senv then Inl (pm_assert_failed [XOpenDisplay] ''Cannot open display'')
      else (let a' = a\<lparr> root_window := display_root senv \<rparr>
            in Inr (a', [XOpenDisplay, XSetErrorHandler, XSetIOErrorHandler,
                         XSelectInput (root_window a') SubstructureNotifyMask])))"

definition create_dock_window :: "app \<Rightarrow> startenv \<Rightarrow> exit + app \<times> xcall list" where
  "create_dock_window a senv =
     (let width = (if horizontal a then of_nat (tile_count a) * tile_size a else tile_size a);
          height = (if horizontal a then tile_size a else of_nat (tile_count a) * tile_size a);
          x = initial_x a;
          y = initial_y a;
          a' = a\<lparr> dock_window := created senv 0 \<rparr>;
          tr = [XCreateSimpleWindow (root_window a) x y width height,
                XStoreName (dock_window a') ''PMDock'',
                XChangeProperty (dock_window a') ''_MOTIF_WM_HINTS''
                  (Longs [3, mwm_funcs a', mwm_decor a', 0, 0])]
      in if \<not> class_hint_ok senv then Inl (pm_assert_failed tr ''Failed to allocate class hint'')
         else Inr (a', tr
               @ [XSetClassHint (dock_window a') ''pmdock'' ''PMDock'']
               @ (if above_all a'
                  then [XChangeProperty (dock_window a') ''_NET_WM_STATE'' (Atom ''_NET_WM_STATE_ABOVE'')]
                       @ pm_debug a' ''Set _NET_WM_STATE_ABOVE hint for window 0x%lx''
                  else [])
               @ (if all_desktops a'
                  then [XChangeProperty (dock_window a') ''_NET_WM_DESKTOP'' (Longs [- 1])]
                       @ pm_debug a' ''Set _NET_WM_DESKTOP hint for window 0x%lx to %d''
                  else [])
               @ [XMapWindow (dock_window a'),
                  XMoveResizeWindow (dock_window a') x y width height,
                  XSelectInput (dock_window a') (ExposureMask OR StructureNotifyMask)]
               @ pm_debug a' ''Created dock window 0x%lx at %ux%u+%d+%d''))"

text \<open>
  The loop of \<^verbatim>\<open>create_launchers\<close>: \<open>i\<close> is the index of the head of the list,
  \<open>k\<close> the number of windows created so far.
\<close>

fun create_launchers_loop :: "app \<Rightarrow> startenv \<Rightarrow> tile list \<Rightarrow> nat \<Rightarrow> nat \<Rightarrow> tile list \<times> xcall list" where
  "create_launchers_loop a senv [] i k = ([], [])"
| "create_launchers_loop a senv (t # ts) i k =
     (if type t \<noteq> TILE_TYPE_LAUNCHER
      then (let (ts', tr) = create_launchers_loop a senv ts (Suc i) k in (t # ts', tr))
      else (let pos = get_tile_position a (of_nat i);
                win = created senv k;
                (ts', tr) = create_launchers_loop a senv ts (Suc i) (Suc k)
            in (t\<lparr> window := win \<rparr> # ts',
                [XCreateSimpleWindow (dock_window a) (x pos) (y pos) (tile_size a) (tile_size a),
                 XSelectInput win (ExposureMask OR ButtonPressMask),
                 XMapWindow win]
                @ pm_debug a ''Created launcher window 0x%lx at %ux%u'' @ tr)))"

definition create_launchers :: "app \<Rightarrow> startenv \<Rightarrow> app \<times> xcall list" where
  "create_launchers a senv =
     (let (ts, tr) = create_launchers_loop a senv (tiles a) 0 1 in (a\<lparr> tiles := ts \<rparr>, tr))"

text \<open>
  The loop of \<^verbatim>\<open>start_dockapps\<close> in the panel process; \<open>k\<close> counts the forks. The
  child of each fork runs the command.
\<close>

fun start_dockapps_loop :: "app \<Rightarrow> startenv \<Rightarrow> tile list \<Rightarrow> nat \<Rightarrow> exit + tile list \<times> xcall list" where
  "start_dockapps_loop a senv [] k = Inr ([], [])"
| "start_dockapps_loop a senv (t # ts) k =
     (if type t \<noteq> TILE_TYPE_APP
      then (case start_dockapps_loop a senv ts k of
              Inl e \<Rightarrow> Inl e
            | Inr (ts', tr) \<Rightarrow> Inr (t # ts', tr))
      else if dockapp_pid senv k < 0
      then Inl (pm_assert_failed [fork_execl_sh (command t)] ''Failed to fork'')
      else (case start_dockapps_loop a senv ts (Suc k) of
              Inl (status, tr) \<Rightarrow> Inl (status, [fork_execl_sh (command t)]
                                       @ pm_debug a ''Started dockapp %s with pid %d'' @ tr)
            | Inr (ts', tr) \<Rightarrow>
                Inr (t\<lparr> pid := dockapp_pid senv k \<rparr> # ts',
                     [fork_execl_sh (command t)]
                     @ pm_debug a ''Started dockapp %s with pid %d'' @ tr)))"

definition start_dockapps :: "app \<Rightarrow> startenv \<Rightarrow> exit + app \<times> xcall list" where
  "start_dockapps a senv =
     (case start_dockapps_loop a senv (tiles a) 0 of
        Inl e \<Rightarrow> Inl e
      | Inr (ts, tr) \<Rightarrow> Inr (a\<lparr> tiles := ts \<rparr>, tr))"

section \<open>The program\<close>

text \<open>
  A run of \<^verbatim>\<open>main\<close> either ends the process, with a status, or is still in the event
  loop after the events given; both come with the calls made so far.
\<close>

datatype outcome = Exited int "xcall list" | Running app "xcall list"

fun calls :: "outcome \<Rightarrow> xcall list" where
  "calls (Exited status tr) = tr"
| "calls (Running a tr) = tr"

definition main :: "sysenv \<Rightarrow> startenv \<Rightarrow> (char \<times> string) list \<Rightarrow> (XEvent \<times> xenv) list \<Rightarrow> outcome" where
  "main env senv opts events =
     (case parse_opts env opts of
        Inl (status, tr) \<Rightarrow> Exited status tr
      | Inr a0 \<Rightarrow>
     (case (if daemon_mode a0 then daemonize a0 senv else Inr []) of
        Inl (status, tr) \<Rightarrow> Exited status tr
      | Inr tr_daemon \<Rightarrow>
     (case setup_display a0 senv of
        Inl (status, tr) \<Rightarrow> Exited status (tr_daemon @ [signal_SIGTERM] @ tr)
      | Inr (a1, tr_display) \<Rightarrow>
     (case create_dock_window a1 senv of
        Inl (status, tr) \<Rightarrow> Exited status (tr_daemon @ [signal_SIGTERM] @ tr_display @ tr)
      | Inr (a2, tr_dock) \<Rightarrow>
     (let (a3, tr_launchers) = create_launchers a2 senv;
          tr_start = tr_daemon @ [signal_SIGTERM] @ tr_display @ tr_dock @ tr_launchers @ [XFlush]
      in case start_dockapps a3 senv of
           Inl (status, tr) \<Rightarrow> Exited status (tr_start @ tr)
         | Inr (a4, tr_apps) \<Rightarrow>
             (let (a5, tr_events) = event_loop a4 events
              in Running a5 (tr_start @ tr_apps @ tr_events)))))))"

section \<open>Vocabulary of the properties\<close>

text \<open>The calls that unmap, reparent or map a window.\<close>

fun reparent_or_map :: "xcall \<Rightarrow> bool" where
  "reparent_or_map (XUnmapWindow w) = True"
| "reparent_or_map (XReparentWindow w p px py) = True"
| "reparent_or_map (XMapRaised w) = True"
| "reparent_or_map (XMapWindow w) = True"
| "reparent_or_map _ = False"

text \<open>
  A tile that a created window with resource name \<open>rn\<close> can fill: the condition of
  the loop of \<^verbatim>\<open>handle_create_event\<close>.
\<close>

definition unfilled_match :: "string \<Rightarrow> tile \<Rightarrow> bool" where
  "unfilled_match rn t = (window t = 0 \<and> res_name t = Some rn)"

text \<open>
  The calls of an event handler that swallows nothing: reading a class hint, writing a log
  line, rendering an image and starting the command of a launcher.
\<close>

fun inert :: "xcall \<Rightarrow> bool" where
  "inert (XGetClassHint w) = True"
| "inert (stderr s) = True"
| "inert (imlib_render_image_on_drawable w im px py) = True"
| "inert (fork_execl_sh c) = True"
| "inert _ = False"

text \<open>
  The calls that mark a swallow: the window-manager check that opens every one, and the
  two calls after the last one, which deselect the events of the root window and signal
  the waiting parent.
\<close>

fun swallow_mark :: "xcall \<Rightarrow> bool" where
  "swallow_mark (XGetWindowProperty w p) = True"
| "swallow_mark (XSelectInput w m) = (m = 0)"
| "swallow_mark kill_getppid_SIGUSR1 = True"
| "swallow_mark _ = False"

text \<open>
  The end of \<^verbatim>\<open>swallow_dockapp\<close> when \<^verbatim>\<open>check_all_dockapps_swallowed\<close> gives
  \<open>b\<close>, without its debug message.
\<close>

definition closing :: "app \<Rightarrow> bool \<Rightarrow> xcall list" where
  "closing a b = (if b then XSelectInput (root_window a) 0
                              # (if daemon_mode a then [kill_getppid_SIGUSR1] else [])
                  else [])"

text \<open>
  Two facts about the tiles that \<^verbatim>\<open>parse_opts\<close> and the start-up establish: a launcher
  tile has no resource name, and a dockapp tile has no window before the event loop.
\<close>

definition launchers_unnamed :: "tile list \<Rightarrow> bool" where
  "launchers_unnamed ts = list_all (\<lambda>t. type t = TILE_TYPE_LAUNCHER \<longrightarrow> res_name t = None) ts"

definition dockapps_unfilled :: "tile list \<Rightarrow> bool" where
  "dockapps_unfilled ts = list_all (\<lambda>t. type t = TILE_TYPE_APP \<longrightarrow> window t = 0) ts"

text \<open>
  What holds of the tiles while \<^verbatim>\<open>parse_opts\<close> fills them: no tile has a window, a
  launcher tile has no resource name, and the tiles from \<^verbatim>\<open>current_tile\<close> on have no
  resource name yet.
\<close>

definition tiles_parsed :: "parse_locals \<Rightarrow> bool" where
  "tiles_parsed st =
     (\<forall>i<length (tiles (the_app st)).
        window (tiles (the_app st) ! i) = 0
        \<and> (type (tiles (the_app st) ! i) = TILE_TYPE_LAUNCHER
             \<longrightarrow> res_name (tiles (the_app st) ! i) = None)
        \<and> (current_tile st \<le> i \<longrightarrow> res_name (tiles (the_app st) ! i) = None))"

text \<open>
  Everything \<^verbatim>\<open>main\<close> does before its event loop: the application state and the calls
  made when the loop is entered, or the exit before that.
\<close>

definition startup :: "sysenv \<Rightarrow> startenv \<Rightarrow> (char \<times> string) list \<Rightarrow> exit + app \<times> xcall list" where
  "startup env senv opts =
     (case parse_opts env opts of
        Inl e \<Rightarrow> Inl e
      | Inr a0 \<Rightarrow>
     (case (if daemon_mode a0 then daemonize a0 senv else Inr []) of
        Inl e \<Rightarrow> Inl e
      | Inr tr_daemon \<Rightarrow>
     (case setup_display a0 senv of
        Inl (status, tr) \<Rightarrow> Inl (status, tr_daemon @ [signal_SIGTERM] @ tr)
      | Inr (a1, tr_display) \<Rightarrow>
     (case create_dock_window a1 senv of
        Inl (status, tr) \<Rightarrow> Inl (status, tr_daemon @ [signal_SIGTERM] @ tr_display @ tr)
      | Inr (a2, tr_dock) \<Rightarrow>
     (let (a3, tr_launchers) = create_launchers a2 senv;
          tr_start = tr_daemon @ [signal_SIGTERM] @ tr_display @ tr_dock @ tr_launchers @ [XFlush]
      in case start_dockapps a3 senv of
           Inl (status, tr) \<Rightarrow> Inl (status, tr_start @ tr)
         | Inr (a4, tr_apps) \<Rightarrow> Inr (a4, tr_start @ tr_apps))))))"

text \<open>
  The locals of \<^verbatim>\<open>parse_opts\<close> when its second pass begins: nothing is pending, the
  background path is the default one, and the tile array has one zeroed tile for each
  \<^verbatim>\<open>-t\<close> that the first pass counted.
\<close>

definition parse_start :: "(char \<times> string) list \<Rightarrow> parse_locals" where
  "parse_start opts =
     \<lparr> the_app = app_init\<lparr> tiles := replicate (length (filter (\<lambda>oa. fst oa = CHR ''t'') opts))
                                      zero_tile \<rparr>,
       pending_command = None, pending_icon = None, pending_resname = None,
       bg_path = DEFAULT_BG_PATH, current_tile = 0 \<rparr>"

section \<open>A scenario\<close>

text \<open>
  A panel with the default tile size 64 and a horizontal layout whose tiles run
  \<^verbatim>\<open>xclock\<close>; the root window is 1, the panel window 2. In \<open>xclock_env\<close> every
  window has the class hint \<^verbatim>\<open>xclock\<close> and an icon window 4 of 48 by 48 pixels, and
  no window manager runs.
\<close>

definition xclock_tile :: tile where
  "xclock_tile = zero_tile\<lparr> command := Some ''xclock'', res_name := Some ''xclock'' \<rparr>"

definition xclock_app :: app where
  "xclock_app = app_init\<lparr> horizontal := True, tiles := [xclock_tile],
                           root_window := 1, dock_window := 2 \<rparr>"

definition xclock_env :: xenv where
  "xclock_env =
     \<lparr> class_hint = (\<lambda>w. Some (''xclock'', ''XClock'')),
       wm_check = False,
       wm_hints = (\<lambda>n w. Some \<lparr> flags = IconWindowHint, icon_window = 4 \<rparr>),
       geometry = (\<lambda>w. Some \<lparr> width = 48, height = 48 \<rparr>) \<rparr>"

text \<open>
  A launcher tile whose icon is 64 by 64 pixels, with the window 5 that
  \<^verbatim>\<open>create_launchers\<close> gave it.
\<close>

definition xterm_tile :: tile where
  "xterm_tile = zero_tile\<lparr> command := Some ''xterm'', type := TILE_TYPE_LAUNCHER,
       icon := Some \<lparr> image_path = ''xterm.png'', image_width = 64, image_height = 64 \<rparr>,
       window := 5 \<rparr>"

text \<open>
  A system in which \<^verbatim>\<open>atoi\<close> reads \<^verbatim>\<open>48\<close> and gives 0 for anything else, every
  image loads as 64 by 64 pixels and every allocation, fork and connection succeeds; the
  root window is 1, the panel window 2, and launcher windows are numbered from 5.
\<close>

definition plain_sys :: sysenv where
  "plain_sys =
     \<lparr> atoi = (\<lambda>s. if s = ''48'' then 48 else 0),
       strtoul = (\<lambda>s. 0),
       imlib_load_image = (\<lambda>p. Some \<lparr> image_path = p, image_width = 64, image_height = 64 \<rparr>),
       calloc_ok = True \<rparr>"

definition plain_start :: startenv where
  "plain_start =
     \<lparr> fork_ok = True, setsid_ok = True, open_ok = True, class_hint_ok = True,
       display_ok = True, display_root = 1,
       created = (\<lambda>n. if n = 0 then 2 else 4 + of_nat n),
       dockapp_pid = (\<lambda>n. 1000 + int n) \<rparr>"

text \<open>
  Two command lines, as the option sequences \<^verbatim>\<open>getopt\<close> yields:
  \<^verbatim>\<open>pmdock -d -H -r xclock -c xclock -t dockapp\<close> and
  \<^verbatim>\<open>pmdock -d -i xterm.png -c xterm -t launcher\<close>.
\<close>

definition xclock_opts :: "(char \<times> string) list" where
  "xclock_opts = [(CHR ''d'', []), (CHR ''H'', []), (CHR ''r'', ''xclock''),
                  (CHR ''c'', ''xclock''), (CHR ''t'', ''dockapp'')]"

definition xterm_opts :: "(char \<times> string) list" where
  "xterm_opts = [(CHR ''d'', []), (CHR ''i'', ''xterm.png''), (CHR ''c'', ''xterm''),
                 (CHR ''t'', ''launcher'')]"


section \<open>Tile positions\<close>

lemma sint_small:
  assumes "uint (w::32 word) < 2 ^ 31"
  shows "sint w = uint w"
proof -
  have "- (2 ^ 31) \<le> (0::int)" by simp
  also have "0 \<le> uint w" by simp
  finally have l: "- (2 ^ 31) \<le> uint w" .
  have "signed_take_bit 31 (uint w) = uint w"
    using l assms by (rule signed_take_bit_int_eq_self)
  moreover have "sint w = signed_take_bit 31 (uint w)"
    by (simp add: sint_uint)
  ultimately show ?thesis by simp
qed

lemma uint_mult_small:
  assumes "uint (i::32 word) * uint (s::32 word) < 2 ^ 31"
  shows "uint (i * s) = uint i * uint s"
proof -
  have "uint i * uint s < 2 ^ LENGTH(32)" using assms by simp
  then show ?thesis by (simp only: uint_mult_lem)
qed

lemma sint_mult_small:
  assumes "uint (i::32 word) * uint (s::32 word) < 2 ^ 31"
  shows "sint (i * s) = uint i * uint s"
proof -
  have "uint (i * s) < 2 ^ 31" using assms by (simp only: uint_mult_small [OF assms])
  then have "sint (i * s) = uint (i * s)" by (rule sint_small)
  then show ?thesis by (simp only: uint_mult_small [OF assms])
qed

lemma uint_succ_small:
  assumes "uint (i::32 word) + 1 < 2 ^ 31"
  shows "uint (i + 1) = uint i + 1"
proof -
  have "uint i + uint (1::32 word) < 2 ^ LENGTH(32)" using assms by simp
  then have "uint (i + 1) = uint i + uint (1::32 word)" by (simp only: uint_add_lem)
  then show ?thesis by simp
qed

text \<open>
  Claim C7, as amended. For a tile size \<open>S > 0\<close> and an index \<open>i\<close> with
  \<open>(i + 1) * S < 2^31\<close>, so that no product leaves the range of \<^verbatim>\<open>int\<close>, the tile
  position is \<open>(i * S, 0)\<close> in a horizontal panel and \<open>(0, i * S)\<close> otherwise; the
  positions of tiles \<open>i\<close> and \<open>i + 1\<close> differ by \<open>S\<close> on the layout axis and by
  0 on the other, and the position increases strictly along the layout axis.
\<close>

theorem get_tile_position_in_range:
  assumes S: "0 < tile_size a"
      and R: "(uint i + 1) * uint (tile_size a) < 2 ^ 31"
  shows "get_tile_position a i =
           (if horizontal a then \<lparr> x = uint i * uint (tile_size a), y = 0 \<rparr>
            else \<lparr> x = 0, y = uint i * uint (tile_size a) \<rparr>)
         \<and> x (get_tile_position a (i + 1)) - x (get_tile_position a i)
             = (if horizontal a then uint (tile_size a) else 0)
         \<and> y (get_tile_position a (i + 1)) - y (get_tile_position a i)
             = (if horizontal a then 0 else uint (tile_size a))
         \<and> (if horizontal a
             then x (get_tile_position a i) < x (get_tile_position a (i + 1))
             else y (get_tile_position a i) < y (get_tile_position a (i + 1)))"
proof -
  let ?S = "tile_size a"
  have Spos: "0 < uint ?S" using S by (simp add: word_less_def)
  have n: "(uint i + 1) * uint ?S = uint i * uint ?S + uint ?S" by (simp add: algebra_simps)
  have r0: "uint i * uint ?S < 2 ^ 31" using R Spos n by linarith
  have "1 \<le> uint ?S" using Spos by linarith
  then have "(uint i + 1) * 1 \<le> (uint i + 1) * uint ?S"
    by (intro mult_left_mono) simp_all
  then have "uint i + 1 \<le> (uint i + 1) * uint ?S" by simp
  then have i1: "uint i + 1 < 2 ^ 31" using R by (rule le_less_trans)
  have u1: "uint (i + 1) = uint i + 1" using i1 by (rule uint_succ_small)
  have r1: "uint (i + 1) * uint ?S < 2 ^ 31" using R by (simp only: u1)
  have p0: "sint (i * ?S) = uint i * uint ?S" using r0 by (rule sint_mult_small)
  have p1: "sint ((i + 1) * ?S) = uint i * uint ?S + uint ?S"
    by (simp only: sint_mult_small [OF r1] u1 n)
  show ?thesis
    unfolding get_tile_position_def
    using Spos by (cases "horizontal a") (simp_all add: p0 p1)
qed

text \<open>
  Claim C7 as stated, for every index and tile size, fails where the unsigned product
  wraps: with \<^verbatim>\<open>-s 2147483647\<close> and three tiles in a horizontal panel, tile 2 is at
  \<open>x = -2\<close>, which is neither \<open>2 * S\<close> nor to the right of tile 1.
\<close>

theorem get_tile_position_overflow:
  "x (get_tile_position (app_init\<lparr> horizontal := True, tile_size := 2147483647 \<rparr>) 1) = 2147483647
   \<and> x (get_tile_position (app_init\<lparr> horizontal := True, tile_size := 2147483647 \<rparr>) 2) = -2
   \<and> x (get_tile_position (app_init\<lparr> horizontal := True, tile_size := 2147483647 \<rparr>) 2)
       \<noteq> 2 * 2147483647
   \<and> \<not> x (get_tile_position (app_init\<lparr> horizontal := True, tile_size := 2147483647 \<rparr>) 1)
       < x (get_tile_position (app_init\<lparr> horizontal := True, tile_size := 2147483647 \<rparr>) 2)"
  by (simp add: get_tile_position_def app_init_def)

text \<open>The amended claim C7 at index 3 of a horizontal panel with the default tile size 64.\<close>

theorem get_tile_position_in_range_witness:
  "get_tile_position (app_init\<lparr> horizontal := True \<rparr>) 3 = \<lparr> x = 192, y = 0 \<rparr>
   \<and> x (get_tile_position (app_init\<lparr> horizontal := True \<rparr>) (3 + 1))
       - x (get_tile_position (app_init\<lparr> horizontal := True \<rparr>) 3) = 64
   \<and> y (get_tile_position (app_init\<lparr> horizontal := True \<rparr>) (3 + 1))
       - y (get_tile_position (app_init\<lparr> horizontal := True \<rparr>) 3) = 0
   \<and> x (get_tile_position (app_init\<lparr> horizontal := True \<rparr>) 3)
       < x (get_tile_position (app_init\<lparr> horizontal := True \<rparr>) (3 + 1))"
proof -
  have S: "0 < tile_size (app_init\<lparr> horizontal := True \<rparr>)"
    by (simp add: app_init_def)
  have R: "(uint (3 :: 32 word) + 1) * uint (tile_size (app_init\<lparr> horizontal := True \<rparr>)) < 2 ^ 31"
    by (simp add: app_init_def)
  have H: "horizontal (app_init\<lparr> horizontal := True \<rparr>)" by simp
  have T: "uint (tile_size (app_init\<lparr> horizontal := True \<rparr>)) = 64" by (simp add: app_init_def)
  show ?thesis
    using get_tile_position_in_range [OF S R] by (simp only: H T if_True) auto
qed

section \<open>Icon discovery and the swallow\<close>

lemma get_icon_window_waiting_unfold:
  "get_icon_window_waiting a env w =
     (if get_icon_window env 0 w \<noteq> 0 then (get_icon_window env 0 w, [XGetWMHints w])
      else if get_icon_window env 1 w \<noteq> 0
      then (get_icon_window env 1 w,
            [XGetWMHints w] @ pm_debug a ''Waiting for icon window of 0x%lx'' @ [usleep 100000]
            @ [XGetWMHints w])
      else (0, [XGetWMHints w] @ pm_debug a ''Waiting for icon window of 0x%lx'' @ [usleep 100000]
               @ [XGetWMHints w] @ pm_debug a ''Waiting for icon window of 0x%lx''
               @ [usleep 100000]))"
  unfolding get_icon_window_waiting_def
  apply (subst get_icon_window_loop.simps)
  apply (subst get_icon_window_loop.simps)
  apply (subst get_icon_window_loop.simps)
  apply (simp add: Let_def)
  done

lemma get_icon_window_wm_check [simp]:
  "get_icon_window (env\<lparr> wm_check := b \<rparr>) n w = get_icon_window env n w"
  by (simp add: get_icon_window_def)

lemma get_icon_window_waiting_wm_check [simp]:
  "get_icon_window_waiting a (env\<lparr> wm_check := b \<rparr>) w = get_icon_window_waiting a env w"
  by (simp add: get_icon_window_waiting_unfold)

lemmas pm_defs = pm_debug_def pm_warn_def pm_error_def pm_fprintf_def

lemma pm_debug_quiet [simp]: "\<forall>c\<in>set (pm_debug a m). \<not> reparent_or_map c"
  by (simp add: pm_debug_def pm_fprintf_def)

lemma pm_warn_quiet [simp]: "\<forall>c\<in>set (pm_warn m). \<not> reparent_or_map c"
  by (simp add: pm_warn_def pm_fprintf_def)

lemma pm_debug_not [simp]:
  "XFlush \<notin> set (pm_debug a m)" "kill_getppid_SIGUSR1 \<notin> set (pm_debug a m)"
  "XSelectInput r k \<notin> set (pm_debug a m)" "usleep n \<notin> set (pm_debug a m)"
  "XGetWMHints w \<notin> set (pm_debug a m)" "XGetWindowProperty w p \<notin> set (pm_debug a m)"
  by (auto simp: pm_debug_def pm_fprintf_def)

lemma pm_warn_not [simp]:
  "XFlush \<notin> set (pm_warn m)" "kill_getppid_SIGUSR1 \<notin> set (pm_warn m)"
  "XSelectInput r k \<notin> set (pm_warn m)" "usleep n \<notin> set (pm_warn m)"
  "XGetWMHints w \<notin> set (pm_warn m)" "XGetWindowProperty w p \<notin> set (pm_warn m)"
  by (auto simp: pm_warn_def pm_fprintf_def)

lemma get_icon_window_waiting_quiet [simp]:
  "\<forall>c\<in>set (snd (get_icon_window_waiting a env w)). \<not> reparent_or_map c"
  by (simp add: get_icon_window_waiting_unfold ball_Un)

lemma swallow_dockapp_no_icon:
  assumes "fst (get_icon_window_waiting a env w) = 0"
  shows "swallow_dockapp a env w i =
           (a, pm_debug a ''Swallowing dockapp with main window 0x%lx at index %d''
               @ [XGetWindowProperty (root_window a) ''_NET_SUPPORTING_WM_CHECK'']
               @ (if wm_check env
                  then pm_warn ''Window manager detected, swallowing dockapp with workaround''
                       @ [usleep 100000]
                  else [])
               @ snd (get_icon_window_waiting a env w)
               @ pm_warn ''Window 0x%lx has no icon window, skipping'')"
  using assms
  by (simp add: swallow_dockapp_def check_window_manager_def split_def Let_def)

lemma swallow_dockapp_no_icon_quiet:
  assumes "fst (get_icon_window_waiting a env w) = 0"
  shows "\<forall>c\<in>set (snd (swallow_dockapp a env w i)). \<not> reparent_or_map c"
  unfolding swallow_dockapp_no_icon [OF assms]
  using get_icon_window_waiting_quiet [of a env w]
  by (auto simp: pm_defs)

lemma swallow_dockapp_tiles:
  "tiles (fst (swallow_dockapp a env w i)) =
     (if fst (get_icon_window_waiting a env w) = 0 then tiles a
      else (tiles a)[i := (tiles a ! i)\<lparr> window := fst (get_icon_window_waiting a env w) \<rparr>])"
  by (simp add: swallow_dockapp_def check_window_manager_def split_def Let_def)

lemma swallow_dockapp_app:
  "fst (swallow_dockapp a env w i) =
     (if fst (get_icon_window_waiting a env w) = 0 then a
      else a\<lparr> tiles := (tiles a)[i := (tiles a ! i)\<lparr> window := fst (get_icon_window_waiting a env w) \<rparr>] \<rparr>)"
  by (simp add: swallow_dockapp_def check_window_manager_def split_def Let_def)


section \<open>Matching a created window\<close>

lemma create_match_unfilled [simp]:
  "(window t = 0 \<and> (case res_name t of None \<Rightarrow> False | Some r \<Rightarrow> rn = r)) = unfilled_match rn t"
  by (auto simp: unfilled_match_def split: option.splits)

lemma create_loop_None:
  "(create_loop ts rn i = None) = (\<forall>t\<in>set ts. \<not> unfilled_match rn t)"
  by (induction ts arbitrary: i) simp_all

lemma create_loop_Some:
  "create_loop ts rn i = Some k \<Longrightarrow>
     i \<le> k \<and> k - i < length ts \<and> unfilled_match rn (ts ! (k - i))
     \<and> (\<forall>j<k - i. \<not> unfilled_match rn (ts ! j))"
proof (induction ts arbitrary: i)
  case Nil
  then show ?case by simp
next
  case (Cons t ts)
  show ?case
  proof (cases "unfilled_match rn t")
    case True
    with Cons.prems show ?thesis by simp
  next
    case False
    with Cons.prems have r: "create_loop ts rn (Suc i) = Some k" by simp
    from Cons.IH [OF r] have ih: "Suc i \<le> k" "k - Suc i < length ts"
      "unfilled_match rn (ts ! (k - Suc i))" "\<forall>j<k - Suc i. \<not> unfilled_match rn (ts ! j)"
      by simp_all
    from ih(1) have e: "k - i = Suc (k - Suc i)" by simp
    show ?thesis
      using ih False unfolding e by (auto simp: nth_Cons split: nat.splits)
  qed
qed

lemma create_loop_first:
  assumes "create_loop ts rn 0 = Some k"
  shows "k < length ts" "unfilled_match rn (ts ! k)" "\<forall>j<k. \<not> unfilled_match rn (ts ! j)"
  using create_loop_Some [OF assms] by simp_all

lemma handle_create_event_tiles:
  "tiles (fst (handle_create_event a env w)) =
     (case class_hint env w of
        None \<Rightarrow> tiles a
      | Some (rn, rc) \<Rightarrow>
          (case create_loop (tiles a) rn 0 of
             None \<Rightarrow> tiles a
           | Some k \<Rightarrow> tiles (fst (swallow_dockapp a env w k))))"
  by (simp add: handle_create_event_def Let_def split_def split: option.splits)

lemma handle_event_tiles_other [simp]:
  "fst (handle_event a env (Expose w)) = a"
  "fst (handle_event a env (ButtonPress w)) = a"
  "fst (handle_event a env OtherEvent) = a"
  by (simp_all add: handle_event_def)

lemma handle_event_create [simp]:
  "handle_event a env (CreateNotify w) = handle_create_event a env w"
  by (simp add: handle_event_def)

lemma handle_create_event_keeps_filled:
  assumes "window (tiles a ! i) \<noteq> 0"
  shows "tiles (fst (handle_create_event a env w)) ! i = tiles a ! i"
proof (cases "class_hint env w")
  case None
  then show ?thesis by (simp add: handle_create_event_tiles)
next
  case (Some h)
  obtain rn rc where h: "h = (rn, rc)" by (cases h)
  show ?thesis
  proof (cases "create_loop (tiles a) rn 0")
    case None
    with Some h show ?thesis by (simp add: handle_create_event_tiles)
  next
    case (Some k)
    from create_loop_first(2) [OF Some] assms have "k \<noteq> i"
      by (auto simp: unfilled_match_def)
    with Some \<open>class_hint env w = Some h\<close> h show ?thesis
      by (simp add: handle_create_event_tiles swallow_dockapp_tiles)
  qed
qed

lemma handle_event_keeps_filled:
  assumes "window (tiles a ! i) \<noteq> 0"
  shows "tiles (fst (handle_event a env ev)) ! i = tiles a ! i"
  using assms by (cases ev) (simp_all add: handle_create_event_keeps_filled)

lemma event_loop_Cons:
  "event_loop a (e # evs) =
     (fst (event_loop (fst (handle_event a (snd e) (fst e))) evs),
      snd (handle_event a (snd e) (fst e))
      @ snd (event_loop (fst (handle_event a (snd e) (fst e))) evs))"
  by (cases e) (simp add: split_def Let_def)

lemma event_loop_keeps_filled:
  "window (tiles a ! i) \<noteq> 0 \<Longrightarrow> tiles (fst (event_loop a evs)) ! i = tiles a ! i"
proof (induction evs arbitrary: a)
  case Nil
  then show ?case by simp
next
  case (Cons e evs)
  let ?a' = "fst (handle_event a (snd e) (fst e))"
  have k: "tiles ?a' ! i = tiles a ! i" using Cons.prems by (rule handle_event_keeps_filled)
  then have "window (tiles ?a' ! i) \<noteq> 0" using Cons.prems by simp
  from Cons.IH [OF this] k show ?case by (simp add: event_loop_Cons)
qed

lemma event_loop_append:
  "event_loop a (evs @ evs') =
     (fst (event_loop (fst (event_loop a evs)) evs'),
      snd (event_loop a evs) @ snd (event_loop (fst (event_loop a evs)) evs'))"
  by (induction evs arbitrary: a) (simp_all add: event_loop_Cons)


section \<open>The claims about the swallowing protocol\<close>

lemmas scenario_defs = xclock_app_def xclock_env_def xclock_tile_def app_init_def zero_tile_def
  IconWindowHint_def

lemmas swallow_defs = swallow_dockapp_def check_window_manager_def get_icon_window_waiting_unfold
  get_icon_window_def get_window_size_def get_tile_position_def check_all_dockapps_swallowed_def
  pm_defs Let_def

text \<open>
  Claim C6. Icon discovery queries the WM hints of the window at most twice. When the first
  query finds an icon window, that is the result and the only call. When it finds none, a
  pause of 100000 microseconds and a second query follow; an icon window the second query
  finds is the result, and the swallow goes on to record it on the tile. When the second
  query finds none either, a second pause follows, the discovery returns \<^verbatim>\<open>None\<close>, the
  swallow leaves the application state (and so the window of the tile) as it was, and none
  of its calls unmaps, reparents or maps a window. A query finds the icon window that the
  WM hints name under the flag \<^verbatim>\<open>IconWindowHint\<close>, and none when the window has no WM
  hints or they lack the flag.
\<close>

theorem icon_discovery_bounded:
  "(get_icon_window env 0 w \<noteq> 0 \<longrightarrow>
      get_icon_window_waiting a env w = (get_icon_window env 0 w, [XGetWMHints w]))
   \<and> (get_icon_window env 0 w = 0 \<and> get_icon_window env 1 w \<noteq> 0 \<longrightarrow>
        get_icon_window_waiting a env w
          = (get_icon_window env 1 w,
             [XGetWMHints w] @ pm_debug a ''Waiting for icon window of 0x%lx''
             @ [usleep 100000, XGetWMHints w])
        \<and> fst (swallow_dockapp a env w index)
          = a\<lparr> tiles := (tiles a)[index := (tiles a ! index)\<lparr> window := get_icon_window env 1 w \<rparr>] \<rparr>)
   \<and> (get_icon_window env 0 w = 0 \<and> get_icon_window env 1 w = 0 \<longrightarrow>
        get_icon_window_waiting a env w
          = (0, [XGetWMHints w] @ pm_debug a ''Waiting for icon window of 0x%lx''
                @ [usleep 100000, XGetWMHints w] @ pm_debug a ''Waiting for icon window of 0x%lx''
                @ [usleep 100000])
        \<and> fst (swallow_dockapp a env w index) = a
        \<and> (\<forall>c\<in>set (snd (swallow_dockapp a env w index)). \<not> reparent_or_map c))
   \<and> length (filter (\<lambda>c. c = XGetWMHints w) (snd (get_icon_window_waiting a env w))) \<le> 2
   \<and> get_icon_window env n w
       = (case wm_hints env n w of
            None \<Rightarrow> 0
          | Some h \<Rightarrow> if flags h AND IconWindowHint = 0 then 0 else icon_window h)"
proof -
  have 1: "get_icon_window_waiting a env w = (get_icon_window env 0 w, [XGetWMHints w])"
    if "get_icon_window env 0 w \<noteq> 0"
    using that by (simp add: get_icon_window_waiting_unfold)
  have 2: "get_icon_window_waiting a env w
          = (get_icon_window env 1 w,
             [XGetWMHints w] @ pm_debug a ''Waiting for icon window of 0x%lx''
             @ [usleep 100000, XGetWMHints w])
        \<and> fst (swallow_dockapp a env w index)
          = a\<lparr> tiles := (tiles a)[index := (tiles a ! index)\<lparr> window := get_icon_window env 1 w \<rparr>] \<rparr>"
    if "get_icon_window env 0 w = 0 \<and> get_icon_window env 1 w \<noteq> 0"
    using that by (simp add: get_icon_window_waiting_unfold swallow_dockapp_app)
  have 3: "get_icon_window_waiting a env w
          = (0, [XGetWMHints w] @ pm_debug a ''Waiting for icon window of 0x%lx''
                @ [usleep 100000, XGetWMHints w] @ pm_debug a ''Waiting for icon window of 0x%lx''
                @ [usleep 100000])
        \<and> fst (swallow_dockapp a env w index) = a
        \<and> (\<forall>c\<in>set (snd (swallow_dockapp a env w index)). \<not> reparent_or_map c)"
    if h: "get_icon_window env 0 w = 0 \<and> get_icon_window env 1 w = 0"
  proof -
    have e: "get_icon_window_waiting a env w
          = (0, [XGetWMHints w] @ pm_debug a ''Waiting for icon window of 0x%lx''
                @ [usleep 100000, XGetWMHints w] @ pm_debug a ''Waiting for icon window of 0x%lx''
                @ [usleep 100000])"
      using h by (simp add: get_icon_window_waiting_unfold)
    then have z: "fst (get_icon_window_waiting a env w) = 0" by simp
    show ?thesis
      using e z swallow_dockapp_no_icon_quiet [OF z, of index]
      by (simp add: swallow_dockapp_app)
  qed
  have 4: "length (filter (\<lambda>c. c = XGetWMHints w) (snd (get_icon_window_waiting a env w))) \<le> 2"
    by (simp add: get_icon_window_waiting_unfold pm_defs)
  have 5: "get_icon_window env n w
       = (case wm_hints env n w of
            None \<Rightarrow> 0
          | Some h \<Rightarrow> if flags h AND IconWindowHint = 0 then 0 else icon_window h)"
    by (simp add: get_icon_window_def split: option.split)
  from 1 2 3 4 5 show ?thesis by blast
qed

text \<open>
  Claim C6 at window 3 of the scenario, twice: where the WM hints appear only at the
  second query, the discovery pauses once, queries again and returns the icon window 4;
  where no window ever has WM hints, it queries twice, pauses twice and returns
  \<^verbatim>\<open>None\<close>, and the swallow for tile 0 changes nothing.
\<close>

theorem icon_discovery_bounded_witness:
  "get_icon_window (xclock_env\<lparr> wm_hints := \<lambda>n w. if n = 0 then None
        else Some \<lparr> flags = IconWindowHint, icon_window = 4 \<rparr> \<rparr>) 0 3 = 0
   \<and> get_icon_window (xclock_env\<lparr> wm_hints := \<lambda>n w. if n = 0 then None
        else Some \<lparr> flags = IconWindowHint, icon_window = 4 \<rparr> \<rparr>) 1 3 = 4
   \<and> get_icon_window_waiting xclock_app (xclock_env\<lparr> wm_hints := \<lambda>n w. if n = 0 then None
        else Some \<lparr> flags = IconWindowHint, icon_window = 4 \<rparr> \<rparr>) 3
       = (4, [XGetWMHints 3, usleep 100000, XGetWMHints 3])
   \<and> fst (swallow_dockapp xclock_app (xclock_env\<lparr> wm_hints := \<lambda>n w. if n = 0 then None
        else Some \<lparr> flags = IconWindowHint, icon_window = 4 \<rparr> \<rparr>) 3 0)
       = xclock_app\<lparr> tiles := [xclock_tile\<lparr> window := 4 \<rparr>] \<rparr>
   \<and> get_icon_window (xclock_env\<lparr> wm_hints := \<lambda>n w. None \<rparr>) 0 3 = 0
   \<and> get_icon_window (xclock_env\<lparr> wm_hints := \<lambda>n w. None \<rparr>) 1 3 = 0
   \<and> get_icon_window_waiting xclock_app (xclock_env\<lparr> wm_hints := \<lambda>n w. None \<rparr>) 3
       = (0, [XGetWMHints 3, usleep 100000, XGetWMHints 3, usleep 100000])
   \<and> fst (swallow_dockapp xclock_app (xclock_env\<lparr> wm_hints := \<lambda>n w. None \<rparr>) 3 0) = xclock_app
   \<and> filter reparent_or_map
         (snd (swallow_dockapp xclock_app (xclock_env\<lparr> wm_hints := \<lambda>n w. None \<rparr>) 3 0)) = []"
proof -
  let ?late = "xclock_env\<lparr> wm_hints := \<lambda>n w. if n = 0 then None
        else Some \<lparr> flags = IconWindowHint, icon_window = 4 \<rparr> \<rparr>"
  let ?none = "xclock_env\<lparr> wm_hints := \<lambda>n w. None \<rparr>"
  have l: "get_icon_window ?late 0 3 = 0" "get_icon_window ?late 1 3 = 4"
    by (simp_all add: get_icon_window_def IconWindowHint_def)
  have n: "get_icon_window ?none 0 3 = 0" "get_icon_window ?none 1 3 = 0"
    by (simp_all add: get_icon_window_def)
  have q: "pm_debug xclock_app m = []" for m by (simp add: pm_debug_def scenario_defs)
  have t: "tiles xclock_app = [xclock_tile]" by (simp add: xclock_app_def)
  from l icon_discovery_bounded [of ?late 3 xclock_app 0]
  have L: "get_icon_window_waiting xclock_app ?late 3 = (4, [XGetWMHints 3, usleep 100000, XGetWMHints 3])"
    "fst (swallow_dockapp xclock_app ?late 3 0) = xclock_app\<lparr> tiles := [xclock_tile\<lparr> window := 4 \<rparr>] \<rparr>"
    by (simp_all add: q t)
  from n icon_discovery_bounded [of ?none 3 xclock_app 0]
  have N: "get_icon_window_waiting xclock_app ?none 3
             = (0, [XGetWMHints 3, usleep 100000, XGetWMHints 3, usleep 100000])"
    "fst (swallow_dockapp xclock_app ?none 3 0) = xclock_app"
    "filter reparent_or_map (snd (swallow_dockapp xclock_app ?none 3 0)) = []"
    by (simp_all add: q filter_empty_conv)
  from l n L N show ?thesis by simp
qed

lemma handle_create_event_no_hint:
  "class_hint env w = None \<Longrightarrow> handle_create_event a env w = (a, [XGetClassHint w])"
  by (simp add: handle_create_event_def)

lemma handle_create_event_no_match:
  assumes "class_hint env w = Some (rn, rc)" and "\<forall>t\<in>set (tiles a). \<not> unfilled_match rn t"
  shows "handle_create_event a env w =
           (a, [XGetClassHint w]
               @ pm_debug a (''Created window 0x%lx with res_name '%s'' @ [CHR 0x27]))"
proof -
  have "create_loop (tiles a) rn 0 = None" using assms(2) by (simp only: create_loop_None)
  then show ?thesis using assms(1) by (simp add: handle_create_event_def Let_def)
qed

text \<open>
  Claim C8. When the created window has no class hint, or no tile is both unfilled and named
  by the resource name of its class hint, handling the creation event leaves the whole
  application state, so every field of every tile, unchanged, and none of the calls made
  unmaps, reparents or maps a window.
\<close>

theorem create_event_without_match:
  assumes "class_hint env w = None
           \<or> (\<exists>rn rc. class_hint env w = Some (rn, rc)
                \<and> (\<forall>t\<in>set (tiles a). \<not> unfilled_match rn t))"
  shows "fst (handle_event a env (CreateNotify w)) = a
         \<and> (\<forall>c\<in>set (snd (handle_event a env (CreateNotify w))). \<not> reparent_or_map c)"
  using assms
proof
  assume "class_hint env w = None"
  then show ?thesis by (simp add: handle_create_event_no_hint)
next
  assume "\<exists>rn rc. class_hint env w = Some (rn, rc)
                \<and> (\<forall>t\<in>set (tiles a). \<not> unfilled_match rn t)"
  then obtain rn rc where "class_hint env w = Some (rn, rc)"
    and "\<forall>t\<in>set (tiles a). \<not> unfilled_match rn t" by blast
  then show ?thesis by (simp add: handle_create_event_no_match pm_defs)
qed

text \<open>
  Claim C8 where the only tile named \<^verbatim>\<open>xclock\<close> is filled already.
\<close>

theorem create_event_without_match_witness:
  "(\<exists>rn rc. class_hint xclock_env 3 = Some (rn, rc)
       \<and> (\<forall>t\<in>set (tiles (xclock_app\<lparr> tiles := [xclock_tile\<lparr> window := 4 \<rparr>] \<rparr>)).
             \<not> unfilled_match rn t))
   \<and> fst (handle_event (xclock_app\<lparr> tiles := [xclock_tile\<lparr> window := 4 \<rparr>] \<rparr>) xclock_env
            (CreateNotify 3))
       = xclock_app\<lparr> tiles := [xclock_tile\<lparr> window := 4 \<rparr>] \<rparr>
   \<and> filter reparent_or_map
         (snd (handle_event (xclock_app\<lparr> tiles := [xclock_tile\<lparr> window := 4 \<rparr>] \<rparr>)
                 xclock_env (CreateNotify 3))) = []"
proof -
  have h: "\<exists>rn rc. class_hint xclock_env 3 = Some (rn, rc)
       \<and> (\<forall>t\<in>set (tiles (xclock_app\<lparr> tiles := [xclock_tile\<lparr> window := 4 \<rparr>] \<rparr>)).
             \<not> unfilled_match rn t)"
    by (simp add: xclock_env_def unfilled_match_def)
  then have "class_hint xclock_env 3 = None \<or> (\<exists>rn rc. class_hint xclock_env 3 = Some (rn, rc)
       \<and> (\<forall>t\<in>set (tiles (xclock_app\<lparr> tiles := [xclock_tile\<lparr> window := 4 \<rparr>] \<rparr>)).
             \<not> unfilled_match rn t))" ..
  from h create_event_without_match [OF this] show ?thesis
    by (simp only: filter_empty_conv) blast
qed

lemma handle_create_event_changes_first:
  assumes h: "class_hint env w = Some (rn, rc)"
      and k: "k < length (tiles a)"
      and c: "tiles (fst (handle_create_event a env w)) ! k \<noteq> tiles a ! k"
  shows "unfilled_match rn (tiles a ! k) \<and> (\<forall>j<k. \<not> unfilled_match rn (tiles a ! j))
         \<and> fst (get_icon_window_waiting a env w) \<noteq> 0
         \<and> tiles (fst (handle_create_event a env w)) ! k
             = (tiles a ! k)\<lparr> window := fst (get_icon_window_waiting a env w) \<rparr>"
proof (cases "create_loop (tiles a) rn 0")
  case None
  with h c show ?thesis by (simp add: handle_create_event_tiles)
next
  case (Some m)
  note f = create_loop_first [OF Some]
  have t: "tiles (fst (handle_create_event a env w)) = tiles (fst (swallow_dockapp a env w m))"
    using h Some by (simp add: handle_create_event_tiles)
  have nz: "fst (get_icon_window_waiting a env w) \<noteq> 0"
    using c unfolding t by (auto simp: swallow_dockapp_tiles)
  have "m = k"
  proof (rule ccontr)
    assume "m \<noteq> k"
    then have "tiles (fst (swallow_dockapp a env w m)) ! k = tiles a ! k"
      by (simp add: swallow_dockapp_tiles)
    with c show False unfolding t by simp
  qed
  with f nz k show ?thesis unfolding t by (simp add: swallow_dockapp_tiles)
qed

text \<open>
  Claim C2. Once the window of tile \<open>i\<close> is nonzero after some events, the tile is the
  same after any further events: its window is never cleared or overwritten, so it is set
  at most once. And a tile that a creation event changes is the first one in index order
  that is unfilled and carries the resource name of the created window; only its window
  changes, to the nonzero icon window.
\<close>

theorem window_set_at_most_once:
  "(window (tiles (fst (event_loop a evs)) ! i) \<noteq> 0 \<longrightarrow>
      tiles (fst (event_loop a (evs @ evs'))) ! i = tiles (fst (event_loop a evs)) ! i)
   \<and> (class_hint env w = Some (rn, rc) \<and> k < length (tiles a)
       \<and> tiles (fst (handle_event a env (CreateNotify w))) ! k \<noteq> tiles a ! k \<longrightarrow>
         unfilled_match rn (tiles a ! k) \<and> (\<forall>j<k. \<not> unfilled_match rn (tiles a ! j))
         \<and> fst (get_icon_window_waiting a env w) \<noteq> 0
         \<and> tiles (fst (handle_event a env (CreateNotify w))) ! k
             = (tiles a ! k)\<lparr> window := fst (get_icon_window_waiting a env w) \<rparr>)"
proof -
  have A: "tiles (fst (event_loop a (evs @ evs'))) ! i = tiles (fst (event_loop a evs)) ! i"
    if "window (tiles (fst (event_loop a evs)) ! i) \<noteq> 0"
    using that by (simp add: event_loop_append event_loop_keeps_filled)
  have B: "unfilled_match rn (tiles a ! k) \<and> (\<forall>j<k. \<not> unfilled_match rn (tiles a ! j))
         \<and> fst (get_icon_window_waiting a env w) \<noteq> 0
         \<and> tiles (fst (handle_event a env (CreateNotify w))) ! k
             = (tiles a ! k)\<lparr> window := fst (get_icon_window_waiting a env w) \<rparr>"
    if "class_hint env w = Some (rn, rc) \<and> k < length (tiles a)
       \<and> tiles (fst (handle_event a env (CreateNotify w))) ! k \<noteq> tiles a ! k"
  proof -
    from that have h: "class_hint env w = Some (rn, rc)" and k: "k < length (tiles a)"
      and c: "tiles (fst (handle_create_event a env w)) ! k \<noteq> tiles a ! k" by simp_all
    from handle_create_event_changes_first [OF h k c] show ?thesis by simp
  qed
  from A B show ?thesis by blast
qed

lemma two_xclock_first_event:
  "fst (event_loop (xclock_app\<lparr> tiles := [xclock_tile, xclock_tile] \<rparr>)
          [(CreateNotify 3, xclock_env)])
   = xclock_app\<lparr> tiles := [xclock_tile\<lparr> window := 4 \<rparr>, xclock_tile] \<rparr>"
  by (simp add: handle_create_event_def swallow_dockapp_app get_icon_window_waiting_unfold
        get_icon_window_def unfilled_match_def scenario_defs split_def Let_def)

text \<open>
  Claim C2 with two tiles that both wait for \<^verbatim>\<open>xclock\<close>: the first creation event fills
  tile 0 and leaves tile 1 alone, and a second creation event does not touch tile 0.
\<close>

theorem window_set_at_most_once_witness:
  "window (tiles (fst (event_loop (xclock_app\<lparr> tiles := [xclock_tile, xclock_tile] \<rparr>)
                         [(CreateNotify 3, xclock_env)])) ! 0) \<noteq> 0
   \<and> tiles (fst (event_loop (xclock_app\<lparr> tiles := [xclock_tile, xclock_tile] \<rparr>)
                   ([(CreateNotify 3, xclock_env)] @ [(CreateNotify 5, xclock_env)]))) ! 0
       = xclock_tile\<lparr> window := 4 \<rparr>
   \<and> class_hint xclock_env 3 = Some (''xclock'', ''XClock'')
   \<and> tiles (fst (handle_event (xclock_app\<lparr> tiles := [xclock_tile, xclock_tile] \<rparr>) xclock_env
                   (CreateNotify 3))) ! 0
       \<noteq> tiles (xclock_app\<lparr> tiles := [xclock_tile, xclock_tile] \<rparr>) ! 0
   \<and> unfilled_match ''xclock'' (tiles (xclock_app\<lparr> tiles := [xclock_tile, xclock_tile] \<rparr>) ! 0)
   \<and> unfilled_match ''xclock'' (tiles (xclock_app\<lparr> tiles := [xclock_tile, xclock_tile] \<rparr>) ! 1)
   \<and> tiles (fst (handle_event (xclock_app\<lparr> tiles := [xclock_tile, xclock_tile] \<rparr>) xclock_env
                   (CreateNotify 3))) ! 1 = xclock_tile"
proof -
  let ?a = "xclock_app\<lparr> tiles := [xclock_tile, xclock_tile] \<rparr>"
  have e: "fst (handle_event ?a xclock_env (CreateNotify 3))
           = xclock_app\<lparr> tiles := [xclock_tile\<lparr> window := 4 \<rparr>, xclock_tile] \<rparr>"
    using two_xclock_first_event by (simp add: split_def Let_def)
  have n: "window (tiles (fst (event_loop ?a [(CreateNotify 3, xclock_env)])) ! 0) \<noteq> 0"
    unfolding two_xclock_first_event by simp
  have h: "class_hint xclock_env 3 = Some (''xclock'', ''XClock'')"
    by (simp add: xclock_env_def)
  have c: "tiles (fst (handle_event ?a xclock_env (CreateNotify 3))) ! 0 \<noteq> tiles ?a ! 0"
    unfolding e by (simp add: xclock_tile_def zero_tile_def)
  have m: "unfilled_match ''xclock'' (tiles ?a ! 0)" "unfilled_match ''xclock'' (tiles ?a ! 1)"
    by (simp_all add: unfilled_match_def xclock_tile_def zero_tile_def)
  have l: "tiles (fst (handle_event ?a xclock_env (CreateNotify 3))) ! 1 = xclock_tile"
    unfolding e by simp
  from window_set_at_most_once [of ?a "[(CreateNotify 3, xclock_env)]" 0
          "[(CreateNotify 5, xclock_env)]" xclock_env 3 "''xclock''" "''XClock''" 0] n h c
  have "tiles (fst (event_loop ?a ([(CreateNotify 3, xclock_env)] @ [(CreateNotify 5, xclock_env)]))) ! 0
        = tiles (fst (event_loop ?a [(CreateNotify 3, xclock_env)])) ! 0"
    by blast
  then have "tiles (fst (event_loop ?a ([(CreateNotify 3, xclock_env)] @ [(CreateNotify 5, xclock_env)]))) ! 0
        = xclock_tile\<lparr> window := 4 \<rparr>"
    by (simp only: two_xclock_first_event) simp
  with n h c m l show ?thesis by blast
qed


lemma get_window_size_wm_check [simp]:
  "get_window_size a (env\<lparr> wm_check := b \<rparr>) w = get_window_size a env w"
  by (simp add: get_window_size_def)

lemma get_window_size_quiet:
  "c \<in> set (snd (get_window_size a env w)) \<Longrightarrow> \<not> reparent_or_map c"
  by (auto simp: get_window_size_def pm_defs split: option.splits if_splits)

lemma get_window_size_no_flush [simp]:
  "XFlush \<notin> set (snd (get_window_size a env w))"
  by (simp add: get_window_size_def pm_defs split: option.splits)

lemma get_icon_window_waiting_quietD:
  "c \<in> set (snd (get_icon_window_waiting a env w)) \<Longrightarrow> \<not> reparent_or_map c"
  using get_icon_window_waiting_quiet by blast

lemma get_icon_window_waiting_no_flush [simp]:
  "XFlush \<notin> set (snd (get_icon_window_waiting a env w))"
  by (simp add: get_icon_window_waiting_unfold pm_defs)

lemma tile_position_word:
  "word_of_int (x (get_tile_position a index)) = (if horizontal a then index * tile_size a else 0)"
  "word_of_int (y (get_tile_position a index)) = (if horizontal a then 0 else index * tile_size a)"
  by (simp_all add: get_tile_position_def)

text \<open>
  Claim C3. Take a window \<open>w\<close> whose icon window \<open>icon_w\<close> is found, let \<open>sz\<close> be
  the size of the icon window (0 by 0 when its geometry cannot be read), and let the resolved
  offsets be: for the icon window the position of tile \<open>i\<close>, which is \<open>i * S\<close> along
  the layout axis and 0 along the other, plus \<open>((S - width) / 2, (S - height) / 2)\<close>, all
  in unsigned 32-bit arithmetic read as an \<^verbatim>\<open>int\<close>; for the main window the same along
  the layout axis and two tile lengths along the other. The swallow with a window
  manager makes, in this order and with nothing that unmaps, reparents, maps or flushes
  before or after: unmap both windows, flush, pause 50000 microseconds, reparent both into
  the panel at these offsets, flush, pause 50000 microseconds, then reparent both again at
  these offsets, map both raised, flush. Without a window manager it makes the last five
  calls only, with the same windows, parent and offsets, and it leaves the same application
  state.
\<close>

theorem swallow_reparent_sequence:
  assumes icon: "fst (get_icon_window_waiting a env w) = icon_w" and nz: "icon_w \<noteq> 0"
      and sz: "sz = (case geometry env icon_w of None \<Rightarrow> \<lparr> width = 0, height = 0 \<rparr> | Some s \<Rightarrow> s)"
      and ix: "icon_x = sint ((if horizontal a then of_nat i * tile_size a else 0)
                               + (tile_size a - width sz) div 2)"
      and iy: "icon_y = sint ((if horizontal a then 0 else of_nat i * tile_size a)
                               + (tile_size a - height sz) div 2)"
      and mx: "main_x = (if horizontal a then icon_x else sint (tile_size a * 2))"
      and my: "main_y = (if horizontal a then sint (tile_size a * 2) else icon_y)"
  shows "\<exists>pre pre' post.
           snd (swallow_dockapp a (env\<lparr> wm_check := True \<rparr>) w i)
             = pre @ [XUnmapWindow w, XUnmapWindow icon_w, XFlush, usleep 50000,
                      XReparentWindow w (dock_window a) main_x main_y,
                      XReparentWindow icon_w (dock_window a) icon_x icon_y,
                      XFlush, usleep 50000,
                      XReparentWindow w (dock_window a) main_x main_y,
                      XReparentWindow icon_w (dock_window a) icon_x icon_y,
                      XMapRaised w, XMapRaised icon_w, XFlush] @ post
         \<and> snd (swallow_dockapp a (env\<lparr> wm_check := False \<rparr>) w i)
             = pre' @ [XReparentWindow w (dock_window a) main_x main_y,
                       XReparentWindow icon_w (dock_window a) icon_x icon_y,
                       XMapRaised w, XMapRaised icon_w, XFlush] @ post
         \<and> (\<forall>c\<in>set (pre @ pre' @ post). \<not> reparent_or_map c \<and> c \<noteq> XFlush)
         \<and> fst (swallow_dockapp a (env\<lparr> wm_check := True \<rparr>) w i)
             = fst (swallow_dockapp a (env\<lparr> wm_check := False \<rparr>) w i)"
proof -
  let ?a' = "a\<lparr> tiles := (tiles a)[i := (tiles a ! i)\<lparr> window := icon_w \<rparr>] \<rparr>"
  have s: "fst (get_window_size ?a' env icon_w) = sz"
    unfolding sz by (simp add: get_window_size_def split: option.split)
  have p: "word_of_int (x (get_tile_position ?a' (of_nat i)))
             = (if horizontal a then of_nat i * tile_size a else 0)"
    "word_of_int (y (get_tile_position ?a' (of_nat i)))
             = (if horizontal a then 0 else of_nat i * tile_size a)"
    by (simp_all add: tile_position_word)
  let ?head = "pm_debug a ''Swallowing dockapp with main window 0x%lx at index %d''
               @ [XGetWindowProperty (root_window a) ''_NET_SUPPORTING_WM_CHECK'']"
  let ?tail = "snd (get_icon_window_waiting a env w) @ [XSetWindowBorderWidth icon_w 0]
               @ snd (get_window_size ?a' env icon_w)"
  let ?pre = "?head @ pm_warn ''Window manager detected, swallowing dockapp with workaround''
              @ [usleep 100000] @ ?tail"
  let ?pre' = "?head @ ?tail"
  let ?post = "pm_debug ?a' ''Swallowed window 0x%lx at %ux%u''
               @ (if check_all_dockapps_swallowed ?a'
                  then pm_debug ?a' ''All dockapps swallowed''
                       @ [XSelectInput (root_window a) 0]
                       @ (if daemon_mode a then [kill_getppid_SIGUSR1] else [])
                  else [])"
  have T: "snd (swallow_dockapp a (env\<lparr> wm_check := True \<rparr>) w i)
             = ?pre @ [XUnmapWindow w, XUnmapWindow icon_w, XFlush, usleep 50000,
                      XReparentWindow w (dock_window a) main_x main_y,
                      XReparentWindow icon_w (dock_window a) icon_x icon_y,
                      XFlush, usleep 50000,
                      XReparentWindow w (dock_window a) main_x main_y,
                      XReparentWindow icon_w (dock_window a) icon_x icon_y,
                      XMapRaised w, XMapRaised icon_w, XFlush] @ ?post"
    using icon nz
    by (simp add: swallow_dockapp_def check_window_manager_def split_def Let_def s p
          ix iy mx my)
  have F: "snd (swallow_dockapp a (env\<lparr> wm_check := False \<rparr>) w i)
             = ?pre' @ [XReparentWindow w (dock_window a) main_x main_y,
                       XReparentWindow icon_w (dock_window a) icon_x icon_y,
                       XMapRaised w, XMapRaised icon_w, XFlush] @ ?post"
    using icon nz
    by (simp add: swallow_dockapp_def check_window_manager_def split_def Let_def s p
          ix iy mx my)
  have Q: "\<forall>c\<in>set (?pre @ ?pre' @ ?post). \<not> reparent_or_map c \<and> c \<noteq> XFlush"
    by (auto simp: pm_defs dest: get_icon_window_waiting_quietD get_window_size_quiet)
  have E: "fst (swallow_dockapp a (env\<lparr> wm_check := True \<rparr>) w i)
             = fst (swallow_dockapp a (env\<lparr> wm_check := False \<rparr>) w i)"
    by (simp add: swallow_dockapp_app)
  from T F Q E show ?thesis by blast
qed

text \<open>
  Claim C3 for window 3 and tile 1 of a panel with two \<^verbatim>\<open>xclock\<close> tiles: the icon
  window is 4, of 48 by 48 pixels, and the tile of 64 pixels is at (64, 0), so the icon
  window goes to (72, 8) and the main window to (72, 128).
\<close>

theorem swallow_reparent_sequence_witness:
  "fst (get_icon_window_waiting (xclock_app\<lparr> tiles := [xclock_tile, xclock_tile] \<rparr>) xclock_env 3) = 4
   \<and> (\<exists>pre pre' post.
           snd (swallow_dockapp (xclock_app\<lparr> tiles := [xclock_tile, xclock_tile] \<rparr>)
                  (xclock_env\<lparr> wm_check := True \<rparr>) 3 1)
             = pre @ [XUnmapWindow 3, XUnmapWindow 4, XFlush, usleep 50000,
                      XReparentWindow 3 2 72 128,
                      XReparentWindow 4 2 72 8,
                      XFlush, usleep 50000,
                      XReparentWindow 3 2 72 128,
                      XReparentWindow 4 2 72 8,
                      XMapRaised 3, XMapRaised 4, XFlush] @ post
         \<and> snd (swallow_dockapp (xclock_app\<lparr> tiles := [xclock_tile, xclock_tile] \<rparr>)
                  (xclock_env\<lparr> wm_check := False \<rparr>) 3 1)
             = pre' @ [XReparentWindow 3 2 72 128,
                       XReparentWindow 4 2 72 8,
                       XMapRaised 3, XMapRaised 4, XFlush] @ post
         \<and> (\<forall>c\<in>set (pre @ pre' @ post). \<not> reparent_or_map c \<and> c \<noteq> XFlush)
         \<and> fst (swallow_dockapp (xclock_app\<lparr> tiles := [xclock_tile, xclock_tile] \<rparr>)
                  (xclock_env\<lparr> wm_check := True \<rparr>) 3 1)
             = fst (swallow_dockapp (xclock_app\<lparr> tiles := [xclock_tile, xclock_tile] \<rparr>)
                  (xclock_env\<lparr> wm_check := False \<rparr>) 3 1))"
proof -
  let ?a = "xclock_app\<lparr> tiles := [xclock_tile, xclock_tile] \<rparr>"
  have i: "fst (get_icon_window_waiting ?a xclock_env 3) = 4"
    by (simp add: get_icon_window_waiting_unfold get_icon_window_def scenario_defs)
  have n: "(4 :: Window) \<noteq> 0" by simp
  have sz: "\<lparr> width = 48, height = 48 \<rparr>
            = (case geometry xclock_env 4 of None \<Rightarrow> \<lparr> width = 0, height = 0 \<rparr> | Some s \<Rightarrow> s)"
    by (simp add: xclock_env_def)
  have ix: "(72 :: int) = sint ((if horizontal ?a then of_nat 1 * tile_size ?a else 0)
                                + (tile_size ?a - width \<lparr> width = 48, height = 48 \<rparr>) div 2)"
    by (simp add: scenario_defs)
  have iy: "(8 :: int) = sint ((if horizontal ?a then 0 else of_nat 1 * tile_size ?a)
                                + (tile_size ?a - height \<lparr> width = 48, height = 48 \<rparr>) div 2)"
    by (simp add: scenario_defs)
  have mx: "(72 :: int) = (if horizontal ?a then 72 else sint (tile_size ?a * 2))"
    by (simp add: scenario_defs)
  have my: "(128 :: int) = (if horizontal ?a then sint (tile_size ?a * 2) else 8)"
    by (simp add: scenario_defs)
  have dw: "dock_window ?a = 2" by (simp add: xclock_app_def)
  from swallow_reparent_sequence [OF i n sz ix iy mx my] i show ?thesis
    unfolding dw by blast
qed

section \<open>Icon placement\<close>

lemma centre_offset_small:
  assumes "w \<le> (S :: 32 word)"
  shows "uint ((S - w) div 2) \<le> uint S div 2"
proof -
  have "uint (S - w) = uint S - uint w" using assms by (simp add: uint_minus_simple_alt)
  then have "uint (S - w) \<le> uint S" by simp
  then show ?thesis by (simp add: uint_div zdiv_mono1)
qed

lemma sint_add_small:
  assumes v: "uint (v :: 32 word) + uint (d :: 32 word) < 2 ^ 31"
  shows "sint (word_of_int (sint v) + d) = sint v + uint d"
proof -
  have "uint v < 2 ^ 31" using v uint_ge_0 [of d] by linarith
  then have sv: "sint v = uint v" by (rule sint_small)
  have "uint v + uint d < 2 ^ LENGTH(32)" using v by simp
  then have u: "uint (v + d) = uint v + uint d" by (simp only: uint_add_lem)
  then have "uint (v + d) < 2 ^ 31" using v by simp
  then have "sint (v + d) = uint (v + d)" by (rule sint_small)
  then show ?thesis by (simp add: sv u)
qed

lemma swallow_dockapp_icon_call:
  assumes icon: "fst (get_icon_window_waiting a env w) = icon_w" and nz: "icon_w \<noteq> 0"
      and g: "geometry env icon_w = Some sz"
  shows "XReparentWindow icon_w (dock_window a)
           (sint (word_of_int (x (get_tile_position a (of_nat i)))
                  + (tile_size a - width sz) div 2))
           (sint (word_of_int (y (get_tile_position a (of_nat i)))
                  + (tile_size a - height sz) div 2))
         \<in> set (snd (swallow_dockapp a env w i))"
  using icon nz g
  by (simp add: swallow_dockapp_def check_window_manager_def get_window_size_def
        get_tile_position_def split_def Let_def)

text \<open>
  The part of claim C1 that holds of \<^verbatim>\<open>swallow_dockapp\<close>: an icon window that fits
  the tile is reparented at the tile position plus \<open>((S - w) div 2, (S - h) div 2)\<close>,
  as long as the tile lies inside the range of \<^verbatim>\<open>int\<close>.
\<close>

lemma swallow_dockapp_centred:
  assumes icon: "fst (get_icon_window_waiting a env w) = icon_w" and nz: "icon_w \<noteq> 0"
      and g: "geometry env icon_w = Some sz"
      and fit: "width sz \<le> tile_size a" "height sz \<le> tile_size a"
      and range: "(uint (of_nat i :: 32 word) + 1) * uint (tile_size a) < 2 ^ 31"
  shows "XReparentWindow icon_w (dock_window a)
           (x (get_tile_position a (of_nat i)) + uint (tile_size a - width sz) div 2)
           (y (get_tile_position a (of_nat i)) + uint (tile_size a - height sz) div 2)
         \<in> set (snd (swallow_dockapp a env w i))"
proof -
  let ?S = "tile_size a"
  let ?i = "of_nat i :: 32 word"
  have n: "(uint ?i + 1) * uint ?S = uint ?i * uint ?S + uint ?S" by (simp add: algebra_simps)
  have S0: "0 \<le> uint ?S" by simp
  have half: "uint ?S div 2 \<le> uint ?S" using S0 by presburger
  have p: "uint ?i * uint ?S < 2 ^ 31" using range n S0 by linarith
  have m: "uint (?i * ?S) = uint ?i * uint ?S" using p by (rule uint_mult_small)
  have bound: "uint v + uint ((?S - s) div 2) < 2 ^ 31"
    if "s \<le> ?S" and "uint v \<le> uint ?i * uint ?S" for v s :: "32 word"
    using centre_offset_small [OF that(1)] that(2) half range n by linarith
  have X: "sint (word_of_int (x (get_tile_position a ?i)) + (?S - width sz) div 2)
             = x (get_tile_position a ?i) + uint (?S - width sz) div 2"
  proof (cases "horizontal a")
    case True
    have "uint (?i * ?S) + uint ((?S - width sz) div 2) < 2 ^ 31"
      using fit(1) by (intro bound) (simp_all add: m)
    from sint_add_small [OF this] True show ?thesis
      by (simp add: get_tile_position_def uint_div)
  next
    case False
    have "uint (0 :: 32 word) + uint ((?S - width sz) div 2) < 2 ^ 31"
      using fit(1) by (intro bound) simp_all
    from sint_add_small [OF this] False show ?thesis
      by (simp add: get_tile_position_def uint_div)
  qed
  have Y: "sint (word_of_int (y (get_tile_position a ?i)) + (?S - height sz) div 2)
             = y (get_tile_position a ?i) + uint (?S - height sz) div 2"
  proof (cases "horizontal a")
    case False
    have "uint (?i * ?S) + uint ((?S - height sz) div 2) < 2 ^ 31"
      using fit(2) by (intro bound) (simp_all add: m)
    from sint_add_small [OF this] False show ?thesis
      by (simp add: get_tile_position_def uint_div)
  next
    case True
    have "uint (0 :: 32 word) + uint ((?S - height sz) div 2) < 2 ^ 31"
      using fit(2) by (intro bound) simp_all
    from sint_add_small [OF this] True show ?thesis
      by (simp add: get_tile_position_def uint_div)
  qed
  from swallow_dockapp_icon_call [OF icon nz g, of i] show ?thesis
    by (simp only: X Y)
qed

text \<open>
  The part of claim C1 about launchers: on an expose event of its window, the icon of a
  launcher tile is rendered centred when it is smaller than the tile, and at the origin
  otherwise.
\<close>

lemma expose_loop_launcher:
  assumes "t \<in> set ts" and "type t = TILE_TYPE_LAUNCHER" and "icon t = Some im"
  shows "imlib_render_image_on_drawable (window t) (Some im)
           (if image_width im < tile_size a then sint ((tile_size a - image_width im) div 2) else 0)
           (if image_height im < tile_size a then sint ((tile_size a - image_height im) div 2) else 0)
         \<in> set (expose_loop a (window t) ts i)"
  using assms
proof (induction ts arbitrary: i)
  case Nil
  then show ?case by simp
next
  case (Cons u ts)
  show ?case
  proof (cases "t = u")
    case True
    with Cons.prems show ?thesis by (simp add: Let_def)
  next
    case False
    with Cons.prems have "t \<in> set ts" by simp
    from Cons.IH [OF this Cons.prems(2,3), of "Suc i"] show ?thesis by (auto simp: Let_def)
  qed
qed

text \<open>
  Claim C1 does not hold of \<^verbatim>\<open>swallow_dockapp\<close>. A 48 by 48 icon in a 64 pixel tile is
  reparented at the centred offset (8, 8). A 64 by 64 icon in a 48 pixel tile
  (\<^verbatim>\<open>-s 48\<close>) is reparented at (2147483640, 2147483640), not at the origin of its tile:
  the unsigned subtraction \<^verbatim>\<open>app.tile_size - size.width\<close> wraps. The launcher path of
  \<^verbatim>\<open>handle_expose_event\<close> does clamp: it renders a 64 by 64 icon in a 48 pixel tile
  at (0, 0).
\<close>

theorem oversized_icon_not_clamped:
  "snd (swallow_dockapp xclock_app xclock_env 3 0)
     = [XGetWindowProperty 1 ''_NET_SUPPORTING_WM_CHECK'', XGetWMHints 3,
        XSetWindowBorderWidth 4 0, XGetGeometry 4,
        XReparentWindow 3 2 8 128, XReparentWindow 4 2 8 8,
        XMapRaised 3, XMapRaised 4, XFlush, XSelectInput 1 0]
   \<and> snd (swallow_dockapp (xclock_app\<lparr> tile_size := 48 \<rparr>)
             (xclock_env\<lparr> geometry := \<lambda>w. Some \<lparr> width = 64, height = 64 \<rparr> \<rparr>) 3 0)
     = [XGetWindowProperty 1 ''_NET_SUPPORTING_WM_CHECK'', XGetWMHints 3,
        XSetWindowBorderWidth 4 0, XGetGeometry 4,
        XReparentWindow 3 2 2147483640 96, XReparentWindow 4 2 2147483640 2147483640,
        XMapRaised 3, XMapRaised 4, XFlush, XSelectInput 1 0]
   \<and> handle_expose_event (xclock_app\<lparr> tile_size := 48, tiles := [xterm_tile] \<rparr>) 5
     = [imlib_render_image_on_drawable 5 None 0 0,
        imlib_render_image_on_drawable 5 (icon xterm_tile) 0 0]"
  by (simp add: swallow_defs scenario_defs handle_expose_event_def xterm_tile_def)

text \<open>
  Claim C5 does not hold of \<^verbatim>\<open>handle_error_event\<close>, which tests the request code
  against 20 (the opcode of \<^verbatim>\<open>GetProperty\<close>), not the error code against
  \<^verbatim>\<open>BadWindow\<close>. With debug messages on, a \<^verbatim>\<open>BadWindow\<close> error of a
  \<^verbatim>\<open>ReparentWindow\<close> request is logged, and an error with code 5 (\<^verbatim>\<open>BadAtom\<close>) of a
  \<^verbatim>\<open>GetProperty\<close> request is not.
\<close>

theorem bad_window_not_what_is_ignored:
  "handle_error_event (app_init\<lparr> verbose := True \<rparr>)
       \<lparr> error_code = BadWindow, request_code = X_ReparentWindow, minor_code = 0, resourceid = 3 \<rparr>
     = (0, [XGetErrorText BadWindow,
            stderr (''pmdock (DEBUG): X11 Error (%d, %d, 0x%lx): %s'' @ newline)])
   \<and> handle_error_event (app_init\<lparr> verbose := True \<rparr>)
       \<lparr> error_code = 5, request_code = X_GetProperty, minor_code = 0, resourceid = 3 \<rparr>
     = (0, [])
   \<and> BadWindow \<noteq> 5"
  by (simp add: handle_error_event_def BadWindow_def X_ReparentWindow_def X_GetProperty_def
        pm_defs)

text \<open>The handler returns 0 in every case; it has no path that ends the process.\<close>

lemma handle_error_event_returns: "fst (handle_error_event a e) = 0"
  by (simp add: handle_error_event_def)

section \<open>Configuration errors\<close>

text \<open>The second pass of \<^verbatim>\<open>parse_opts\<close> starts from \<open>parse_start\<close>.\<close>

lemma parse_opts_parse_start:
  "parse_opts env opts =
     (if opts \<noteq> [] \<and> (\<exists>oa\<in>set opts. fst oa = CHR ''t'') \<and> \<not> calloc_ok env
      then Inl (pm_assert_failed [] ''Failed to allocate memory'')
      else
        (case parse_loop env (parse_start opts) opts of
           Inl e \<Rightarrow> Inl e
         | Inr st \<Rightarrow>
             if tile_count (the_app st) = 0
             then Inl (exit_usage (pm_error ''No tiles specified'') 1)
             else (case imlib_load_image env (bg_path st) of
                     None \<Rightarrow> Inl (pm_assert_failed [] ''Failed to load background image: %s'')
                   | Some im \<Rightarrow> Inr ((the_app st)\<lparr> bg_image := Some im \<rparr>))))"
  by (auto simp add: parse_opts_def parse_start_def Let_def filter_empty_conv)

lemma parse_loop_append:
  "parse_loop env st (xs @ ys) =
     (case parse_loop env st xs of Inl e \<Rightarrow> Inl e | Inr s \<Rightarrow> parse_loop env s ys)"
  by (induction xs arbitrary: st) (simp_all split: sum.split)

text \<open>
  What one option does to the pending command and the pending icon. An option other
  than \<^verbatim>\<open>-h\<close>, met while the pending icon (if any) loads, ends the process only
  through \<^verbatim>\<open>exit_usage(1)\<close> after an error line; \<^verbatim>\<open>-t\<close> leaves no command pending,
  and only \<^verbatim>\<open>-c\<close> and \<^verbatim>\<open>-t\<close> change the pending command.
\<close>

lemma usage_error_exit [simp]:
  "\<exists>m. exit_usage (pm_error m') 1 = (1, pm_error m @ [stderr USAGE])"
  by (auto simp: exit_usage_def)

lemma parse_opt_pending_command:
  "case parse_opt env st oa of
     Inl e \<Rightarrow> True
   | Inr st' \<Rightarrow>
       (fst oa = CHR ''t'' \<longrightarrow> pending_command st' = None)
       \<and> (fst oa \<noteq> CHR ''t'' \<and> fst oa \<noteq> CHR ''c''
             \<longrightarrow> pending_command st' = pending_command st)"
  by (simp add: parse_opt_def Let_def split: option.split)

lemma parse_opt_usage_error:
  assumes "\<forall>p. pending_icon st = Some p \<longrightarrow> imlib_load_image env p \<noteq> None"
      and "fst oa \<noteq> CHR ''h''"
      and "fst oa = CHR ''i'' \<longrightarrow> imlib_load_image env (snd oa) \<noteq> None"
  shows "case parse_opt env st oa of
           Inl e \<Rightarrow> \<exists>m. e = (1, pm_error m @ [stderr USAGE])
         | Inr st' \<Rightarrow> \<forall>p. pending_icon st' = Some p \<longrightarrow> imlib_load_image env p \<noteq> None"
  using assms by (simp add: parse_opt_def Let_def split: option.split) fastforce

text \<open>
  After a run of options that ends no process, no command is pending when no \<^verbatim>\<open>-c\<close>
  has come since the last \<^verbatim>\<open>-t\<close> (or since the start, when none was pending there).
\<close>

lemma parse_loop_pending_command:
  assumes "parse_loop env st pre = Inr s"
      and "pending_command st = None"
      and "\<forall>oa\<in>set (takeWhile (\<lambda>oa. fst oa \<noteq> CHR ''t'') (rev pre)). fst oa \<noteq> CHR ''c''"
  shows "pending_command s = None"
  using assms(1,3)
proof (induction pre arbitrary: s rule: rev_induct)
  case Nil
  then show ?case using assms(2) by simp
next
  case (snoc oa xs)
  from snoc.prems(1) obtain s' where x: "parse_loop env st xs = Inr s'"
    and o: "parse_opt env s' oa = Inr s"
    by (cases "parse_loop env st xs") (auto simp: parse_loop_append split: sum.splits)
  show ?case
  proof (cases "fst oa = CHR ''t''")
    case True
    with parse_opt_pending_command [where env = env and st = s' and oa = oa] o show ?thesis by simp
  next
    case False
    with snoc.prems(2) have c: "fst oa \<noteq> CHR ''c''"
      and r: "\<forall>oa\<in>set (takeWhile (\<lambda>oa. fst oa \<noteq> CHR ''t'') (rev xs)). fst oa \<noteq> CHR ''c''"
      by simp_all
    from snoc.IH [OF x r] parse_opt_pending_command [where env = env and st = s' and oa = oa] o False c
    show ?thesis by simp
  qed
qed

text \<open>
  A run of options without \<^verbatim>\<open>-h\<close> whose icons all load ends the process, if at all,
  through \<^verbatim>\<open>exit_usage(1)\<close> after an error line.
\<close>

lemma parse_loop_usage_error:
  assumes i: "\<forall>p. pending_icon st = Some p \<longrightarrow> imlib_load_image env p \<noteq> None"
      and ok: "\<forall>oa\<in>set pre. fst oa \<noteq> CHR ''h''
                 \<and> (fst oa = CHR ''i'' \<longrightarrow> imlib_load_image env (snd oa) \<noteq> None)"
  shows "case parse_loop env st pre of
           Inl e \<Rightarrow> \<exists>m. e = (1, pm_error m @ [stderr USAGE])
         | Inr s \<Rightarrow> \<forall>p. pending_icon s = Some p \<longrightarrow> imlib_load_image env p \<noteq> None"
  using ok
proof (induction pre rule: rev_induct)
  case Nil
  then show ?case using i by simp
next
  case (snoc oa xs)
  from snoc.prems have okx: "\<forall>oa\<in>set xs. fst oa \<noteq> CHR ''h''
                 \<and> (fst oa = CHR ''i'' \<longrightarrow> imlib_load_image env (snd oa) \<noteq> None)"
    and h: "fst oa \<noteq> CHR ''h''"
    and l: "fst oa = CHR ''i'' \<longrightarrow> imlib_load_image env (snd oa) \<noteq> None" by simp_all
  note ih = snoc.IH [OF okx]
  show ?case
  proof (cases "parse_loop env st xs")
    case (Inl e)
    with ih show ?thesis by (simp add: parse_loop_append)
  next
    case (Inr s)
    with ih have ic: "\<forall>p. pending_icon s = Some p \<longrightarrow> imlib_load_image env p \<noteq> None"
      by simp
    from parse_opt_usage_error [OF ic h l] Inr show ?thesis
      by (cases "parse_opt env s oa") (auto simp: parse_loop_append)
  qed
qed

text \<open>
  Claim C9, as amended. Take a \<^verbatim>\<open>-t\<close> among the options such that the options before
  it end no process (the second pass of \<^verbatim>\<open>parse_opts\<close> gets through them) and hold no
  \<^verbatim>\<open>-c\<close> after the last \<^verbatim>\<open>-t\<close> among them, or no \<^verbatim>\<open>-c\<close> at all when there is no
  \<^verbatim>\<open>-t\<close> among them; the tile array can be allocated. Then no command is pending at
  that \<^verbatim>\<open>-t\<close>, the process exits with status 1, and all it has done is write the error
  line about the missing \<^verbatim>\<open>-c\<close> and then the usage text to standard error: no
  connection to the window system is opened and no window is created.
\<close>

theorem type_flag_without_command:
  assumes o: "opts = pre @ (CHR ''t'', arg) # rest"
      and p: "parse_loop env (parse_start opts) pre = Inr s"
      and nc: "\<forall>oa\<in>set (takeWhile (\<lambda>oa. fst oa \<noteq> CHR ''t'') (rev pre)). fst oa \<noteq> CHR ''c''"
      and al: "calloc_ok env"
  shows "pending_command s = None
         \<and> main env senv opts events
             = Exited 1 [stderr (''pmdock (ERROR): Error: -t requires preceding -c to specify command''
                                 @ newline),
                         stderr USAGE]"
proof -
  have "pending_command (parse_start opts) = None" by (simp add: parse_start_def)
  from parse_loop_pending_command [OF p this nc] have n: "pending_command s = None" .
  then have "parse_opt env s (CHR ''t'', arg)
               = Inl (exit_usage (pm_error ''Error: -t requires preceding -c to specify command'') 1)"
    by (simp add: parse_opt_def Let_def)
  with p have "parse_loop env (parse_start opts) (pre @ (CHR ''t'', arg) # rest)
                 = Inl (exit_usage (pm_error ''Error: -t requires preceding -c to specify command'') 1)"
    by (simp add: parse_loop_append)
  then have "parse_loop env (parse_start opts) opts
                 = Inl (exit_usage (pm_error ''Error: -t requires preceding -c to specify command'') 1)"
    by (simp only: o [symmetric])
  then have "parse_opts env opts
               = Inl (exit_usage (pm_error ''Error: -t requires preceding -c to specify command'') 1)"
    using al by (simp add: parse_opts_parse_start)
  then have "main env senv opts events
               = Exited 1 [stderr (''pmdock (ERROR): Error: -t requires preceding -c to specify command''
                                   @ newline),
                           stderr USAGE]"
    by (simp add: main_def exit_usage_def pm_error_def pm_fprintf_def)
  with n show ?thesis ..
qed

text \<open>
  Claim C9 as stated fails when \<^verbatim>\<open>-h\<close> comes first: \<^verbatim>\<open>pmdock -h -t dockapp\<close> has a
  \<^verbatim>\<open>-t\<close> without a preceding \<^verbatim>\<open>-c\<close>, prints the usage text and exits with status 0.
\<close>

theorem help_before_type_flag:
  "main plain_sys plain_start [(CHR ''h'', []), (CHR ''t'', ''dockapp'')] []
     = Exited 0 [stderr USAGE]"
  by (simp add: main_def parse_opts_def parse_opt_def exit_usage_def plain_sys_def Let_def)

text \<open>
  The amended claim C9 for \<^verbatim>\<open>pmdock -c x -r y -t dockapp -t dockapp\<close>, at the second
  \<^verbatim>\<open>-t\<close>: the first tile has used up the \<^verbatim>\<open>-c\<close>.
\<close>

theorem type_flag_without_command_witness:
  "[(CHR ''c'', ''x''), (CHR ''r'', ''y''), (CHR ''t'', ''dockapp''), (CHR ''t'', ''dockapp'')]
     = [(CHR ''c'', ''x''), (CHR ''r'', ''y''), (CHR ''t'', ''dockapp'')]
       @ (CHR ''t'', ''dockapp'') # []
   \<and> (\<exists>s. parse_loop plain_sys
             (parse_start [(CHR ''c'', ''x''), (CHR ''r'', ''y''), (CHR ''t'', ''dockapp''),
                           (CHR ''t'', ''dockapp'')])
             [(CHR ''c'', ''x''), (CHR ''r'', ''y''), (CHR ''t'', ''dockapp'')] = Inr s
          \<and> pending_command s = None)
   \<and> takeWhile (\<lambda>oa. fst oa \<noteq> CHR ''t'')
        (rev [(CHR ''c'', ''x''), (CHR ''r'', ''y''), (CHR ''t'', ''dockapp'')]) = []
   \<and> calloc_ok plain_sys
   \<and> main plain_sys plain_start
        [(CHR ''c'', ''x''), (CHR ''r'', ''y''), (CHR ''t'', ''dockapp''), (CHR ''t'', ''dockapp'')] []
       = Exited 1 [stderr (''pmdock (ERROR): Error: -t requires preceding -c to specify command''
                           @ newline),
                   stderr USAGE]"
proof -
  let ?pre = "[(CHR ''c'', ''x''), (CHR ''r'', ''y''), (CHR ''t'', ''dockapp'')]"
  let ?opts = "[(CHR ''c'', ''x''), (CHR ''r'', ''y''), (CHR ''t'', ''dockapp''),
                (CHR ''t'', ''dockapp'')]"
  have 1: "?opts = ?pre @ (CHR ''t'', ''dockapp'') # []" by simp
  have "\<exists>s. parse_loop plain_sys (parse_start ?opts) ?pre = Inr s"
    by (simp add: parse_opt_def parse_start_def Let_def)
  then obtain s where 2: "parse_loop plain_sys (parse_start ?opts) ?pre = Inr s" ..
  have t: "takeWhile (\<lambda>oa. fst oa \<noteq> CHR ''t'') (rev ?pre) = []" by simp
  then have 3: "\<forall>oa\<in>set (takeWhile (\<lambda>oa. fst oa \<noteq> CHR ''t'') (rev ?pre)). fst oa \<noteq> CHR ''c''"
    by (simp only: set_simps ball_empty)
  have 4: "calloc_ok plain_sys" by (simp add: plain_sys_def)
  from type_flag_without_command [OF 1 2 3 4, of plain_start "[]"] 1 2 t 4 show ?thesis by blast
qed

text \<open>
  In terms of the options alone: when the options before such a \<^verbatim>\<open>-t\<close> hold no
  \<^verbatim>\<open>-h\<close> and every icon they name loads, the process exits with status 1 after one
  error line and the usage text, be it for this \<^verbatim>\<open>-t\<close> or for an earlier option.
\<close>

lemma usage_error_at_type_flag:
  assumes o: "opts = pre @ (CHR ''t'', arg) # rest"
      and nc: "\<forall>oa\<in>set (takeWhile (\<lambda>oa. fst oa \<noteq> CHR ''t'') (rev pre)). fst oa \<noteq> CHR ''c''"
      and ok: "\<forall>oa\<in>set pre. fst oa \<noteq> CHR ''h''
                 \<and> (fst oa = CHR ''i'' \<longrightarrow> imlib_load_image env (snd oa) \<noteq> None)"
      and al: "calloc_ok env"
  shows "\<exists>m. main env senv opts events
              = Exited 1 [stderr (''pmdock (ERROR): '' @ m @ newline), stderr USAGE]"
proof -
  have i: "\<forall>p. pending_icon (parse_start opts) = Some p \<longrightarrow> imlib_load_image env p \<noteq> None"
    and c: "pending_command (parse_start opts) = None"
    by (simp_all add: parse_start_def)
  have "\<exists>m. parse_loop env (parse_start opts) (pre @ (CHR ''t'', arg) # rest)
              = Inl (1, pm_error m @ [stderr USAGE])"
  proof (cases "parse_loop env (parse_start opts) pre")
    case (Inl e)
    with parse_loop_usage_error [OF i ok] show ?thesis
      by (auto simp: parse_loop_append)
  next
    case (Inr s)
    from parse_loop_pending_command [OF Inr c nc] have "pending_command s = None" .
    then have "parse_opt env s (CHR ''t'', arg)
                 = Inl (exit_usage (pm_error ''Error: -t requires preceding -c to specify command'') 1)"
      by (simp add: parse_opt_def Let_def)
    with Inr show ?thesis
      by (simp add: parse_loop_append)
  qed
  then obtain m where "parse_loop env (parse_start opts) (pre @ (CHR ''t'', arg) # rest)
                         = Inl (1, pm_error m @ [stderr USAGE])" ..
  then have "parse_loop env (parse_start opts) opts = Inl (1, pm_error m @ [stderr USAGE])"
    by (simp only: o [symmetric])
  then have "parse_opts env opts = Inl (1, pm_error m @ [stderr USAGE])"
    using al by (simp add: parse_opts_parse_start)
  then have "main env senv opts events
               = Exited 1 [stderr (''pmdock (ERROR): '' @ m @ newline), stderr USAGE]"
    by (simp add: main_def pm_error_def pm_fprintf_def)
  then show ?thesis ..
qed

section \<open>The tiles after configuration and start-up\<close>

lemma tiles_parsed_current:
  assumes "tiles_parsed st" and "current_tile st < length (tiles (the_app st))"
  shows "window (tiles (the_app st) ! current_tile st) = 0"
    and "res_name (tiles (the_app st) ! current_tile st) = None"
  using assms by (simp_all add: tiles_parsed_def)

lemma tiles_parsed_fill:
  assumes p: "tiles_parsed st"
      and w: "current_tile st < length (tiles (the_app st)) \<longrightarrow>
                window t' = 0 \<and> (type t' = TILE_TYPE_LAUNCHER \<longrightarrow> res_name t' = None)"
  shows "tiles_parsed (st\<lparr> the_app := (the_app st)\<lparr> tiles := (tiles (the_app st))[current_tile st := t'] \<rparr>,
                           current_tile := Suc (current_tile st) \<rparr>)"
  unfolding tiles_parsed_def
proof (intro allI impI)
  fix i
  let ?ts = "tiles (the_app st)"
  let ?st' = "st\<lparr> the_app := (the_app st)\<lparr> tiles := ?ts[current_tile st := t'] \<rparr>,
                   current_tile := Suc (current_tile st) \<rparr>"
  assume "i < length (tiles (the_app ?st'))"
  then have i: "i < length ?ts" by simp
  from p i have o: "window (?ts ! i) = 0"
    "type (?ts ! i) = TILE_TYPE_LAUNCHER \<longrightarrow> res_name (?ts ! i) = None"
    "current_tile st \<le> i \<longrightarrow> res_name (?ts ! i) = None"
    by (simp_all add: tiles_parsed_def)
  show "window (tiles (the_app ?st') ! i) = 0
        \<and> (type (tiles (the_app ?st') ! i) = TILE_TYPE_LAUNCHER
             \<longrightarrow> res_name (tiles (the_app ?st') ! i) = None)
        \<and> (current_tile ?st' \<le> i \<longrightarrow> res_name (tiles (the_app ?st') ! i) = None)"
  proof (cases "i = current_tile st")
    case True
    with i w show ?thesis by simp
  next
    case False
    with i o show ?thesis by simp
  qed
qed

lemma tiles_parsed_other [simp]:
  "tiles_parsed (st\<lparr> the_app := (the_app st)\<lparr> above_all := v1 \<rparr> \<rparr>) = tiles_parsed st"
  "tiles_parsed (st\<lparr> the_app := (the_app st)\<lparr> all_desktops := v1 \<rparr> \<rparr>) = tiles_parsed st"
  "tiles_parsed (st\<lparr> the_app := (the_app st)\<lparr> verbose := v1 \<rparr> \<rparr>) = tiles_parsed st"
  "tiles_parsed (st\<lparr> the_app := (the_app st)\<lparr> initial_x := v2 \<rparr> \<rparr>) = tiles_parsed st"
  "tiles_parsed (st\<lparr> the_app := (the_app st)\<lparr> initial_y := v2 \<rparr> \<rparr>) = tiles_parsed st"
  "tiles_parsed (st\<lparr> the_app := (the_app st)\<lparr> tile_size := v3 \<rparr> \<rparr>) = tiles_parsed st"
  "tiles_parsed (st\<lparr> the_app := (the_app st)\<lparr> horizontal := v1 \<rparr> \<rparr>) = tiles_parsed st"
  "tiles_parsed (st\<lparr> the_app := (the_app st)\<lparr> daemon_mode := v1 \<rparr> \<rparr>) = tiles_parsed st"
  "tiles_parsed (st\<lparr> the_app := (the_app st)\<lparr> mwm_funcs := v4 \<rparr> \<rparr>) = tiles_parsed st"
  "tiles_parsed (st\<lparr> the_app := (the_app st)\<lparr> mwm_decor := v4 \<rparr> \<rparr>) = tiles_parsed st"
  "tiles_parsed (st\<lparr> pending_resname := v5 \<rparr>) = tiles_parsed st"
  "tiles_parsed (st\<lparr> pending_icon := v5 \<rparr>) = tiles_parsed st"
  "tiles_parsed (st\<lparr> pending_command := v5 \<rparr>) = tiles_parsed st"
  "tiles_parsed (st\<lparr> bg_path := v6 \<rparr>) = tiles_parsed st"
  by (simp_all add: tiles_parsed_def)

lemma parse_opt_tiles_parsed_case:
  "tiles_parsed st \<Longrightarrow>
   (case parse_opt env st oa of Inl e \<Rightarrow> True | Inr st' \<Rightarrow> tiles_parsed st')"
  by (simp add: parse_opt_def Let_def tiles_parsed_fill tiles_parsed_current
        split: option.split)

lemma parse_opt_tiles_parsed:
  assumes p: "tiles_parsed st" and s: "parse_opt env st oa = Inr st'"
  shows "tiles_parsed st'"
  using parse_opt_tiles_parsed_case [OF p, of env oa] unfolding s by simp

lemma parse_loop_tiles_parsed:
  "tiles_parsed st \<Longrightarrow> parse_loop env st opts = Inr st' \<Longrightarrow> tiles_parsed st'"
proof (induction opts arbitrary: st)
  case Nil
  then show ?case by simp
next
  case (Cons oa opts)
  show ?case
  proof (cases "parse_opt env st oa")
    case (Inl e)
    with Cons.prems show ?thesis by simp
  next
    case (Inr st1)
    with Cons.prems have "parse_loop env st1 opts = Inr st'" by simp
    moreover from Cons.prems(1) Inr have "tiles_parsed st1" by (rule parse_opt_tiles_parsed)
    ultimately show ?thesis by (intro Cons.IH)
  qed
qed

lemma parse_opts_tiles:
  assumes "parse_opts env opts = Inr a"
  shows "launchers_unnamed (tiles a) \<and> dockapps_unfilled (tiles a)"
proof -
  let ?n = "length (filter (\<lambda>oa. fst oa = CHR ''t'') opts)"
  let ?st = "\<lparr> the_app = app_init\<lparr> tiles := replicate ?n zero_tile \<rparr>,
                pending_command = None, pending_icon = None, pending_resname = None,
                bg_path = DEFAULT_BG_PATH, current_tile = 0 \<rparr>"
  have i: "tiles_parsed ?st" by (simp add: tiles_parsed_def zero_tile_def)
  from assms obtain st where l: "parse_loop env ?st opts = Inr st"
    and a: "tiles a = tiles (the_app st)"
    unfolding parse_opts_def Let_def
    by (auto split: if_splits sum.splits option.splits)
  from parse_loop_tiles_parsed [OF i l] show ?thesis
    unfolding a by (simp add: tiles_parsed_def launchers_unnamed_def dockapps_unfilled_def
        list_all_length)
qed

section \<open>Calls made before the event loop\<close>

lemma pm_error_mark [simp]: "\<forall>c\<in>set (pm_error m). \<not> swallow_mark c"
  by (simp add: pm_defs)

lemma pm_debug_mark [simp]: "\<forall>c\<in>set (pm_debug a m). \<not> swallow_mark c"
  by (simp add: pm_defs)

lemma pm_warn_mark [simp]: "\<forall>c\<in>set (pm_warn m). \<not> swallow_mark c"
  by (simp add: pm_defs)

lemma exit_usage_mark [simp]:
  "(\<forall>c\<in>set (snd (exit_usage tr s)). \<not> swallow_mark c) = (\<forall>c\<in>set tr. \<not> swallow_mark c)"
  by (simp add: exit_usage_def ball_Un)

lemma pm_assert_failed_mark [simp]:
  "(\<forall>c\<in>set (snd (pm_assert_failed tr m)). \<not> swallow_mark c) = (\<forall>c\<in>set tr. \<not> swallow_mark c)"
  by (simp add: pm_assert_failed_def pm_defs ball_Un)

lemma parse_opt_exit_calls_case:
  "case parse_opt env st oa of
     Inl e \<Rightarrow> \<forall>c\<in>set (snd e). \<not> swallow_mark c
   | Inr st' \<Rightarrow> True"
  by (simp add: parse_opt_def Let_def split: option.split)

lemma parse_opt_exit_calls:
  assumes "parse_opt env st oa = Inl e"
  shows "\<forall>c\<in>set (snd e). \<not> swallow_mark c"
  using parse_opt_exit_calls_case [of env st oa] unfolding assms by simp

lemma parse_loop_exit_calls:
  "parse_loop env st opts = Inl e \<Longrightarrow> \<forall>c\<in>set (snd e). \<not> swallow_mark c"
proof (induction opts arbitrary: st)
  case Nil
  then show ?case by simp
next
  case (Cons oa opts)
  show ?case
  proof (cases "parse_opt env st oa")
    case (Inl e')
    with Cons.prems have "e' = e" by simp
    moreover from Inl have "\<forall>c\<in>set (snd e'). \<not> swallow_mark c" by (rule parse_opt_exit_calls)
    ultimately show ?thesis by simp
  next
    case (Inr st')
    with Cons.prems have "parse_loop env st' opts = Inl e" by simp
    then show ?thesis by (rule Cons.IH)
  qed
qed

lemma parse_opts_exit_calls:
  assumes "parse_opts env opts = Inl e"
  shows "\<forall>c\<in>set (snd e). \<not> swallow_mark c"
proof -
  let ?n = "length (filter (\<lambda>oa. fst oa = CHR ''t'') opts)"
  let ?st = "\<lparr> the_app = app_init\<lparr> tiles := replicate ?n zero_tile \<rparr>,
                pending_command = None, pending_icon = None, pending_resname = None,
                bg_path = DEFAULT_BG_PATH, current_tile = 0 \<rparr>"
  from assms consider
      "e = pm_assert_failed [] ''Failed to allocate memory''"
    | "parse_loop env ?st opts = Inl e"
    | "e = exit_usage (pm_error ''No tiles specified'') 1"
    | "e = pm_assert_failed [] ''Failed to load background image: %s''"
    unfolding parse_opts_def Let_def
    by (auto split: if_splits sum.splits option.splits)
  then show ?thesis
  proof cases
    case 2
    then show ?thesis by (rule parse_loop_exit_calls)
  qed simp_all
qed

lemma masks_nonzero [simp]:
  "SubstructureNotifyMask \<noteq> 0" "ExposureMask OR StructureNotifyMask \<noteq> 0"
  "ExposureMask OR ButtonPressMask \<noteq> 0"
  by (simp_all add: SubstructureNotifyMask_def ExposureMask_def StructureNotifyMask_def
        ButtonPressMask_def)

lemma daemonize_calls:
  "case daemonize a senv of
     Inl e \<Rightarrow> \<forall>c\<in>set (snd e). \<not> swallow_mark c
   | Inr tr \<Rightarrow> \<forall>c\<in>set tr. \<not> swallow_mark c"
  by (simp add: daemonize_def ball_Un)

lemma setup_display_calls:
  "case setup_display a senv of
     Inl e \<Rightarrow> \<forall>c\<in>set (snd e). \<not> swallow_mark c
   | Inr (a', tr) \<Rightarrow> (\<forall>c\<in>set tr. \<not> swallow_mark c) \<and> tiles a' = tiles a
                       \<and> daemon_mode a' = daemon_mode a"
  by (simp add: setup_display_def Let_def)

lemma create_dock_window_calls:
  "case create_dock_window a senv of
     Inl e \<Rightarrow> \<forall>c\<in>set (snd e). \<not> swallow_mark c
   | Inr (a', tr) \<Rightarrow> (\<forall>c\<in>set tr. \<not> swallow_mark c) \<and> tiles a' = tiles a
                       \<and> daemon_mode a' = daemon_mode a"
  by (auto simp: create_dock_window_def Let_def pm_defs pm_assert_failed_def)

lemma create_launchers_loop_calls:
  "\<forall>c\<in>set (snd (create_launchers_loop a senv ts i k)). \<not> swallow_mark c"
  by (induction ts arbitrary: i k) (simp_all add: split_def Let_def ball_Un)

lemma create_launchers_loop_types:
  "map type (fst (create_launchers_loop a senv ts i k)) = map type ts"
  by (induction ts arbitrary: i k) (simp_all add: split_def Let_def)

lemma create_launchers_loop_unnamed:
  "launchers_unnamed ts \<Longrightarrow> launchers_unnamed (fst (create_launchers_loop a senv ts i k))"
  by (induction ts arbitrary: i k) (simp_all add: split_def Let_def launchers_unnamed_def)

lemma create_launchers_loop_unfilled:
  "dockapps_unfilled ts \<Longrightarrow> dockapps_unfilled (fst (create_launchers_loop a senv ts i k))"
  by (induction ts arbitrary: i k) (simp_all add: split_def Let_def dockapps_unfilled_def)

lemma start_dockapps_loop_calls:
  "case start_dockapps_loop a senv ts k of
     Inl e \<Rightarrow> \<forall>c\<in>set (snd e). \<not> swallow_mark c
   | Inr (ts', tr) \<Rightarrow> (\<forall>c\<in>set tr. \<not> swallow_mark c) \<and> map type ts' = map type ts
        \<and> (launchers_unnamed ts \<longrightarrow> launchers_unnamed ts')
        \<and> (dockapps_unfilled ts \<longrightarrow> dockapps_unfilled ts')"
proof (induction ts arbitrary: k)
  case Nil
  then show ?case by (simp add: launchers_unnamed_def dockapps_unfilled_def)
next
  case (Cons t ts)
  show ?case
    using Cons.IH [of k] Cons.IH [of "Suc k"]
    by (simp add: ball_Un launchers_unnamed_def dockapps_unfilled_def
          split: sum.splits prod.splits)
qed

section \<open>Events after the last swallow\<close>

lemma inert_not_mark: "inert c \<Longrightarrow> \<not> swallow_mark c \<and> \<not> reparent_or_map c"
  by (cases c) simp_all

lemma pm_debug_inert [simp]: "\<forall>c\<in>set (pm_debug a m). inert c"
  by (simp add: pm_defs)

lemma expose_loop_inert: "\<forall>c\<in>set (expose_loop a w ts i). inert c"
  by (induction ts arbitrary: i) (simp_all add: Let_def)

lemma button_press_loop_inert: "\<forall>c\<in>set (button_press_loop ts w). inert c"
  by (induction ts) simp_all

lemma check_all_loop_iff:
  "check_all_loop ts = (\<forall>t\<in>set ts. \<not> (type t = TILE_TYPE_APP \<and> window t = 0))"
  by (induction ts) auto

lemma not_app_launcher: "(type t \<noteq> TILE_TYPE_APP) = (type t = TILE_TYPE_LAUNCHER)"
  by (cases "type t") simp_all

lemma all_filled_no_match:
  assumes "launchers_unnamed ts" and "check_all_loop ts"
  shows "\<forall>t\<in>set ts. \<not> unfilled_match rn t"
proof
  fix t assume t: "t \<in> set ts"
  show "\<not> unfilled_match rn t"
  proof
    assume m: "unfilled_match rn t"
    then have w: "window t = 0" and r: "res_name t = Some rn" by (simp_all add: unfilled_match_def)
    from assms(2) t w have "type t \<noteq> TILE_TYPE_APP" by (auto simp: check_all_loop_iff)
    then have "type t = TILE_TYPE_LAUNCHER" by (simp add: not_app_launcher)
    with assms(1) t have "res_name t = None" by (auto simp: launchers_unnamed_def list_all_iff)
    with r show False by simp
  qed
qed

lemma handle_event_terminal:
  assumes u: "launchers_unnamed (tiles a)" and f: "check_all_dockapps_swallowed a"
  shows "fst (handle_event a env ev) = a \<and> (\<forall>c\<in>set (snd (handle_event a env ev)). inert c)"
proof (cases ev)
  case (CreateNotify w)
  from all_filled_no_match [OF u] f
  have n: "\<forall>t\<in>set (tiles a). \<not> unfilled_match rn t" for rn
    by (simp add: check_all_dockapps_swallowed_def)
  show ?thesis
  proof (cases "class_hint env w")
    case None
    with CreateNotify show ?thesis by (simp add: handle_create_event_no_hint)
  next
    case (Some h)
    obtain rn rc where "h = (rn, rc)" by (cases h)
    with Some have "class_hint env w = Some (rn, rc)" by simp
    from handle_create_event_no_match [OF this n] CreateNotify show ?thesis by simp
  qed
next
  case (Expose w)
  then show ?thesis by (simp add: handle_event_def handle_expose_event_def expose_loop_inert)
next
  case (ButtonPress w)
  then show ?thesis
    by (simp add: handle_event_def handle_button_press_event_def button_press_loop_inert)
next
  case OtherEvent
  then show ?thesis by (simp add: handle_event_def)
qed

lemma event_loop_terminal:
  assumes u: "launchers_unnamed (tiles a)" and f: "check_all_dockapps_swallowed a"
  shows "fst (event_loop a evs) = a \<and> (\<forall>c\<in>set (snd (event_loop a evs)). inert c)"
proof (induction evs)
  case Nil
  show ?case by simp
next
  case (Cons e evs)
  from handle_event_terminal [OF u f, of "snd e" "fst e"] Cons show ?case
    by (simp add: event_loop_Cons ball_Un)
qed

lemma tiles_update_window_types:
  "map type (ts[k := (ts ! k)\<lparr> window := v \<rparr>]) = map type ts"
  by (induction ts arbitrary: k) (simp_all split: nat.split)

lemma tiles_update_window_unnamed:
  "launchers_unnamed ts \<Longrightarrow> launchers_unnamed (ts[k := (ts ! k)\<lparr> window := v \<rparr>])"
  unfolding launchers_unnamed_def
  by (induction ts arbitrary: k) (simp_all split: nat.split)

lemma handle_event_app:
  "fst (handle_event a env ev) = a\<lparr> tiles := tiles (fst (handle_event a env ev)) \<rparr>"
  by (cases ev)
     (simp_all add: handle_event_def handle_create_event_def swallow_dockapp_app split_def Let_def
        split: option.split)

lemma handle_event_tiles_shape:
  "tiles (fst (handle_event a env ev)) = tiles a
   \<or> (\<exists>k v. tiles (fst (handle_event a env ev)) = (tiles a)[k := (tiles a ! k)\<lparr> window := v \<rparr>])"
  by (cases ev)
     (auto simp: handle_create_event_tiles swallow_dockapp_tiles split: option.split)

lemma handle_event_preserves:
  "map type (tiles (fst (handle_event a env ev))) = map type (tiles a)"
  "launchers_unnamed (tiles a) \<Longrightarrow> launchers_unnamed (tiles (fst (handle_event a env ev)))"
  "daemon_mode (fst (handle_event a env ev)) = daemon_mode a"
  "root_window (fst (handle_event a env ev)) = root_window a"
proof -
  show "map type (tiles (fst (handle_event a env ev))) = map type (tiles a)"
    using handle_event_tiles_shape [of a env ev] by (auto simp: tiles_update_window_types)
  show "launchers_unnamed (tiles (fst (handle_event a env ev)))" if "launchers_unnamed (tiles a)"
    using handle_event_tiles_shape [of a env ev] that by (auto simp: tiles_update_window_unnamed)
  show "daemon_mode (fst (handle_event a env ev)) = daemon_mode a"
    by (subst handle_event_app) simp
  show "root_window (fst (handle_event a env ev)) = root_window a"
    by (subst handle_event_app) simp
qed

lemma event_loop_preserves:
  "map type (tiles (fst (event_loop a evs))) = map type (tiles a)
   \<and> daemon_mode (fst (event_loop a evs)) = daemon_mode a
   \<and> root_window (fst (event_loop a evs)) = root_window a"
  by (induction evs arbitrary: a) (simp_all add: event_loop_Cons handle_event_preserves)

section \<open>What start-up leaves\<close>

lemma main_startup:
  "main env senv opts events =
     (case startup env senv opts of
        Inl (status, tr) \<Rightarrow> Exited status tr
      | Inr (a4, tr0) \<Rightarrow>
          Running (fst (event_loop a4 events)) (tr0 @ snd (event_loop a4 events)))"
  by (simp add: main_def startup_def split_def Let_def split: sum.split)

lemma create_launchers_props:
  "(\<forall>c\<in>set (snd (create_launchers a senv)). \<not> swallow_mark c)
   \<and> map type (tiles (fst (create_launchers a senv))) = map type (tiles a)
   \<and> (launchers_unnamed (tiles a) \<longrightarrow> launchers_unnamed (tiles (fst (create_launchers a senv))))
   \<and> (dockapps_unfilled (tiles a) \<longrightarrow> dockapps_unfilled (tiles (fst (create_launchers a senv))))
   \<and> daemon_mode (fst (create_launchers a senv)) = daemon_mode a"
  using create_launchers_loop_calls [where a = a and senv = senv and ts = "tiles a" and i = 0 and k = 1]
  by (simp add: create_launchers_def split_def Let_def create_launchers_loop_types
        create_launchers_loop_unnamed create_launchers_loop_unfilled)

lemma start_dockapps_props:
  "case start_dockapps a senv of
     Inl e \<Rightarrow> \<forall>c\<in>set (snd e). \<not> swallow_mark c
   | Inr (a', tr) \<Rightarrow> (\<forall>c\<in>set tr. \<not> swallow_mark c) \<and> map type (tiles a') = map type (tiles a)
        \<and> (launchers_unnamed (tiles a) \<longrightarrow> launchers_unnamed (tiles a'))
        \<and> (dockapps_unfilled (tiles a) \<longrightarrow> dockapps_unfilled (tiles a'))
        \<and> daemon_mode a' = daemon_mode a"
  using start_dockapps_loop_calls [where a = a and senv = senv and ts = "tiles a" and k = 0]
  by (simp add: start_dockapps_def split: sum.splits prod.splits)

lemma startup_props:
  "case startup env senv opts of
     Inl e \<Rightarrow> \<forall>c\<in>set (snd e). \<not> swallow_mark c
   | Inr (a4, tr0) \<Rightarrow>
       (\<forall>c\<in>set tr0. \<not> swallow_mark c)
       \<and> launchers_unnamed (tiles a4) \<and> dockapps_unfilled (tiles a4)
       \<and> (\<exists>a0. parse_opts env opts = Inr a0 \<and> map type (tiles a4) = map type (tiles a0)
                \<and> daemon_mode a4 = daemon_mode a0)"
proof (cases "parse_opts env opts")
  case (Inl e)
  then show ?thesis using parse_opts_exit_calls [OF Inl] by (simp add: startup_def)
next
  case (Inr a0)
  note t0 = parse_opts_tiles [OF Inr]
  let ?d = "if daemon_mode a0 then daemonize a0 senv else Inr []"
  show ?thesis
  proof (cases ?d)
    case (Inl e)
    then show ?thesis using daemonize_calls [of a0 senv] Inr
      by (simp add: startup_def split: if_splits)
  next
    case d: (Inr trd)
    then have md: "\<forall>c\<in>set trd. \<not> swallow_mark c"
      using daemonize_calls [of a0 senv] by (simp split: if_splits)
    show ?thesis
    proof (cases "setup_display a0 senv")
      case (Inl e)
      then show ?thesis using setup_display_calls [of a0 senv] Inr d md
        by (simp add: startup_def split_def ball_Un)
    next
      case s: (Inr r1)
      obtain a1 tr1 where r1: "r1 = (a1, tr1)" by (cases r1)
      from s r1 setup_display_calls [of a0 senv]
      have p1: "\<forall>c\<in>set tr1. \<not> swallow_mark c" "tiles a1 = tiles a0" "daemon_mode a1 = daemon_mode a0"
        by simp_all
      show ?thesis
      proof (cases "create_dock_window a1 senv")
        case (Inl e)
        then show ?thesis using create_dock_window_calls [of a1 senv] Inr d md s r1 p1
          by (simp add: startup_def split_def ball_Un)
      next
        case w: (Inr r2)
        obtain a2 tr2 where r2: "r2 = (a2, tr2)" by (cases r2)
        from w r2 create_dock_window_calls [of a1 senv]
        have p2: "\<forall>c\<in>set tr2. \<not> swallow_mark c" "tiles a2 = tiles a1" "daemon_mode a2 = daemon_mode a1"
          by simp_all
        let ?a3 = "fst (create_launchers a2 senv)"
        let ?tr3 = "snd (create_launchers a2 senv)"
        note p3 = create_launchers_props [of a2 senv]
        show ?thesis
        proof (cases "start_dockapps ?a3 senv")
          case (Inl e)
          then show ?thesis using start_dockapps_props [of ?a3 senv] Inr d md s r1 p1 w r2 p2 p3
            by (simp add: startup_def split_def Let_def ball_Un)
        next
          case f: (Inr r4)
          obtain a4 tr4 where r4: "r4 = (a4, tr4)" by (cases r4)
          from f r4 start_dockapps_props [of ?a3 senv]
          have p4: "\<forall>c\<in>set tr4. \<not> swallow_mark c" "map type (tiles a4) = map type (tiles ?a3)"
            "launchers_unnamed (tiles ?a3) \<longrightarrow> launchers_unnamed (tiles a4)"
            "dockapps_unfilled (tiles ?a3) \<longrightarrow> dockapps_unfilled (tiles a4)"
            "daemon_mode a4 = daemon_mode ?a3"
            by simp_all
          have e: "startup env senv opts
                   = Inr (a4, trd @ [signal_SIGTERM] @ tr1 @ tr2 @ ?tr3 @ [XFlush] @ tr4)"
            using Inr d s r1 w r2 f r4 by (simp add: startup_def split_def Let_def)
          show ?thesis
            unfolding e using Inr t0 md p1 p2 p3 p4 by (simp add: ball_Un)
        qed
      qed
    qed
  qed
qed

section \<open>Events up to the last swallow\<close>

lemma get_icon_window_waiting_mark [simp]:
  "\<forall>c\<in>set (snd (get_icon_window_waiting a env w)). \<not> swallow_mark c"
  by (simp add: get_icon_window_waiting_unfold ball_Un)

lemma get_window_size_mark [simp]:
  "\<forall>c\<in>set (snd (get_window_size a env w)). \<not> swallow_mark c"
  by (simp add: get_window_size_def ball_Un split: option.split)

lemma swallow_dockapp_found_calls:
  assumes nz: "fst (get_icon_window_waiting a env w) \<noteq> 0"
  shows "\<exists>pre mid. snd (swallow_dockapp a env w i)
           = pre @ [XGetWindowProperty (root_window a) ''_NET_SUPPORTING_WM_CHECK''] @ mid
             @ (if check_all_dockapps_swallowed (fst (swallow_dockapp a env w i))
                then [XSelectInput (root_window a) 0]
                     @ (if daemon_mode a then [kill_getppid_SIGUSR1] else [])
                else [])
         \<and> (\<forall>c\<in>set (pre @ mid). \<not> swallow_mark c)"
proof -
  let ?icon = "fst (get_icon_window_waiting a env w)"
  let ?a' = "a\<lparr> tiles := (tiles a)[i := (tiles a ! i)\<lparr> window := ?icon \<rparr>] \<rparr>"
  let ?size = "fst (get_window_size ?a' env ?icon)"
  let ?pos = "get_tile_position ?a' (of_nat i)"
  let ?ix = "sint (word_of_int (x ?pos) + (tile_size a - width ?size) div 2)"
  let ?iy = "sint (word_of_int (y ?pos) + (tile_size a - height ?size) div 2)"
  let ?mx = "if horizontal a then ?ix else sint (tile_size a * 2)"
  let ?my = "if horizontal a then sint (tile_size a * 2) else ?iy"
  let ?pre = "pm_debug a ''Swallowing dockapp with main window 0x%lx at index %d''"
  let ?mid = "(if wm_check env
               then pm_warn ''Window manager detected, swallowing dockapp with workaround''
                    @ [usleep 100000]
               else [])
              @ snd (get_icon_window_waiting a env w) @ [XSetWindowBorderWidth ?icon 0]
              @ snd (get_window_size ?a' env ?icon)
              @ (if wm_check env
                 then [XUnmapWindow w, XUnmapWindow ?icon, XFlush, usleep 50000,
                       XReparentWindow w (dock_window a) ?mx ?my,
                       XReparentWindow ?icon (dock_window a) ?ix ?iy,
                       XFlush, usleep 50000]
                 else [])
              @ [XReparentWindow w (dock_window a) ?mx ?my,
                 XReparentWindow ?icon (dock_window a) ?ix ?iy,
                 XMapRaised w, XMapRaised ?icon, XFlush]
              @ pm_debug ?a' ''Swallowed window 0x%lx at %ux%u''
              @ (if check_all_dockapps_swallowed ?a'
                 then pm_debug ?a' ''All dockapps swallowed'' else [])"
  have a': "fst (swallow_dockapp a env w i) = ?a'" using nz by (simp add: swallow_dockapp_app)
  have T: "snd (swallow_dockapp a env w i)
             = ?pre @ [XGetWindowProperty (root_window a) ''_NET_SUPPORTING_WM_CHECK''] @ ?mid
               @ (if check_all_dockapps_swallowed ?a'
                  then [XSelectInput (root_window a) 0]
                       @ (if daemon_mode a then [kill_getppid_SIGUSR1] else [])
                  else [])"
    using nz by (simp add: swallow_dockapp_def check_window_manager_def split_def Let_def)
  have Q: "\<forall>c\<in>set (?pre @ ?mid). \<not> swallow_mark c"
    by (auto simp: pm_defs dest!: bspec [OF get_icon_window_waiting_mark]
          bspec [OF get_window_size_mark])
  from T Q show ?thesis unfolding a' by blast
qed


lemma no_mark:
  assumes "\<forall>c\<in>set tr. \<not> swallow_mark c"
  shows "kill_getppid_SIGUSR1 \<notin> set tr" "XSelectInput r 0 \<notin> set tr"
    "XGetWindowProperty r p \<notin> set tr"
proof -
  show "kill_getppid_SIGUSR1 \<notin> set tr"
  proof
    assume "kill_getppid_SIGUSR1 \<in> set tr"
    with assms have "\<not> swallow_mark kill_getppid_SIGUSR1" by blast
    then show False by simp
  qed
  show "XSelectInput r 0 \<notin> set tr"
  proof
    assume "XSelectInput r 0 \<in> set tr"
    with assms have "\<not> swallow_mark (XSelectInput r 0)" by blast
    then show False by simp
  qed
  show "XGetWindowProperty r p \<notin> set tr"
  proof
    assume "XGetWindowProperty r p \<in> set tr"
    with assms have "\<not> swallow_mark (XGetWindowProperty r p)" by blast
    then show False by simp
  qed
qed

lemma inert_no_mark:
  assumes "\<forall>c\<in>set tr. inert c"
  shows "\<forall>c\<in>set tr. \<not> swallow_mark c" "\<forall>c\<in>set tr. \<not> reparent_or_map c"
  using assms inert_not_mark by blast+

lemma swallow_dockapp_no_icon_marks:
  assumes "fst (get_icon_window_waiting a env w) = 0"
  shows "kill_getppid_SIGUSR1 \<notin> set (snd (swallow_dockapp a env w i))
         \<and> XSelectInput r 0 \<notin> set (snd (swallow_dockapp a env w i))"
  unfolding swallow_dockapp_no_icon [OF assms]
  using no_mark(1,2) [OF get_icon_window_waiting_mark [of a env w]]
  by (auto simp: pm_defs)

lemma handle_create_event_match:
  assumes "class_hint env w = Some (rn, rc)" and "create_loop (tiles a) rn 0 = Some k"
  shows "handle_create_event a env w =
           (fst (swallow_dockapp a env w k),
            [XGetClassHint w]
            @ pm_debug a (''Created window 0x%lx with res_name '%s'' @ [CHR 0x27])
            @ snd (swallow_dockapp a env w k))"
  using assms by (simp add: handle_create_event_def Let_def split_def)

lemma handle_event_step:
  assumes u: "launchers_unnamed (tiles a)" and nf: "\<not> check_all_dockapps_swallowed a"
  shows "\<exists>pre. snd (handle_event a env ev)
                 = pre @ closing a (check_all_dockapps_swallowed (fst (handle_event a env ev)))
               \<and> kill_getppid_SIGUSR1 \<notin> set pre
               \<and> XSelectInput (root_window a) 0 \<notin> set pre"
proof -
  have same: ?thesis
    if "fst (handle_event a env ev) = a" and "kill_getppid_SIGUSR1 \<notin> set (snd (handle_event a env ev))"
      and "XSelectInput (root_window a) 0 \<notin> set (snd (handle_event a env ev))"
    using that nf by (simp add: closing_def)
  have inert: ?thesis
    if "fst (handle_event a env ev) = a" and "\<forall>c\<in>set (snd (handle_event a env ev)). inert c"
    using that(1) 
  proof (rule same)
    show "kill_getppid_SIGUSR1 \<notin> set (snd (handle_event a env ev))"
      using that(2) by (intro no_mark inert_no_mark)
    show "XSelectInput (root_window a) 0 \<notin> set (snd (handle_event a env ev))"
      using that(2) by (intro no_mark inert_no_mark)
  qed
  show ?thesis
  proof (cases ev)
    case (CreateNotify w)
    show ?thesis
    proof (cases "class_hint env w")
      case None
      with CreateNotify show ?thesis by (intro inert) (simp_all add: handle_create_event_no_hint)
    next
      case (Some h)
      obtain rn rc where h: "class_hint env w = Some (rn, rc)" using Some by (cases h) simp
      show ?thesis
      proof (cases "create_loop (tiles a) rn 0")
        case None
        then have "\<forall>t\<in>set (tiles a). \<not> unfilled_match rn t" by (simp only: create_loop_None)
        from handle_create_event_no_match [OF h this] CreateNotify show ?thesis
          by (intro inert) simp_all
      next
        case (Some k)
        note e = handle_create_event_match [OF h Some]
        show ?thesis
        proof (cases "fst (get_icon_window_waiting a env w) = 0")
          case True
          from swallow_dockapp_no_icon_marks [OF True, of k]
          show ?thesis using CreateNotify True
            by (intro same) (auto simp: e swallow_dockapp_app pm_defs)
        next
          case False
          from swallow_dockapp_found_calls [OF False, of k] obtain pre mid where
            t: "snd (swallow_dockapp a env w k)
                  = pre @ [XGetWindowProperty (root_window a) ''_NET_SUPPORTING_WM_CHECK''] @ mid
                    @ closing a (check_all_dockapps_swallowed (fst (swallow_dockapp a env w k)))"
            and q: "\<forall>c\<in>set (pre @ mid). \<not> swallow_mark c"
            unfolding closing_def by auto
          let ?p = "[XGetClassHint w]
                    @ pm_debug a (''Created window 0x%lx with res_name '%s'' @ [CHR 0x27])
                    @ pre @ [XGetWindowProperty (root_window a) ''_NET_SUPPORTING_WM_CHECK''] @ mid"
          have "snd (handle_event a env ev)
                  = ?p @ closing a (check_all_dockapps_swallowed (fst (handle_event a env ev)))"
            using CreateNotify by (simp add: e t)
          moreover have "kill_getppid_SIGUSR1 \<notin> set ?p \<and> XSelectInput (root_window a) 0 \<notin> set ?p"
            using no_mark(1,2) [OF q] by (auto simp: pm_defs)
          ultimately show ?thesis by blast
        qed
      qed
    qed
  next
    case (Expose w)
    then show ?thesis
      by (intro inert) (simp_all add: handle_event_def handle_expose_event_def expose_loop_inert)
  next
    case (ButtonPress w)
    then show ?thesis
      by (intro inert)
         (simp_all add: handle_event_def handle_button_press_event_def button_press_loop_inert)
  next
    case OtherEvent
    then show ?thesis by (intro inert) (simp_all add: handle_event_def)
  qed
qed

lemma event_loop_run:
  assumes "launchers_unnamed (tiles a)" and "\<not> check_all_dockapps_swallowed a"
  shows "\<exists>tr1 tr2. snd (event_loop a evs)
            = tr1 @ closing a (check_all_dockapps_swallowed (fst (event_loop a evs))) @ tr2
          \<and> kill_getppid_SIGUSR1 \<notin> set tr1 \<and> XSelectInput (root_window a) 0 \<notin> set tr1
          \<and> (\<forall>c\<in>set tr2. inert c)"
  using assms
proof (induction evs arbitrary: a)
  case Nil
  then show ?case by (simp add: closing_def)
next
  case (Cons e evs)
  let ?a1 = "fst (handle_event a (snd e) (fst e))"
  from handle_event_step [OF Cons.prems, of "snd e" "fst e"] obtain pre where
    s: "snd (handle_event a (snd e) (fst e)) = pre @ closing a (check_all_dockapps_swallowed ?a1)"
    and p: "kill_getppid_SIGUSR1 \<notin> set pre" "XSelectInput (root_window a) 0 \<notin> set pre"
    by blast
  have u1: "launchers_unnamed (tiles ?a1)" using Cons.prems(1) by (rule handle_event_preserves)
  have c1: "closing ?a1 b = closing a b" for b
    by (simp add: closing_def handle_event_preserves)
  show ?case
  proof (cases "check_all_dockapps_swallowed ?a1")
    case True
    from event_loop_terminal [OF u1 True, of evs]
    have t: "fst (event_loop ?a1 evs) = ?a1" "\<forall>c\<in>set (snd (event_loop ?a1 evs)). inert c"
      by simp_all
    have "snd (event_loop a (e # evs))
            = pre @ closing a (check_all_dockapps_swallowed (fst (event_loop a (e # evs))))
              @ snd (event_loop ?a1 evs)"
      using True by (simp add: event_loop_Cons s t(1))
    with p t(2) show ?thesis by blast
  next
    case False
    from Cons.IH [OF u1 False] obtain tr1 tr2 where
      i: "snd (event_loop ?a1 evs)
            = tr1 @ closing a (check_all_dockapps_swallowed (fst (event_loop ?a1 evs))) @ tr2"
      and q: "kill_getppid_SIGUSR1 \<notin> set tr1" "XSelectInput (root_window a) 0 \<notin> set tr1"
        "\<forall>c\<in>set tr2. inert c"
      unfolding c1 by (auto simp: handle_event_preserves)
    have "snd (event_loop a (e # evs))
            = (pre @ tr1) @ closing a (check_all_dockapps_swallowed (fst (event_loop a (e # evs))))
              @ tr2"
      using False by (simp add: event_loop_Cons s i closing_def)
    moreover have "kill_getppid_SIGUSR1 \<notin> set (pre @ tr1)"
      "XSelectInput (root_window a) 0 \<notin> set (pre @ tr1)" using p q by simp_all
    ultimately show ?thesis using q(3) by blast
  qed
qed

section \<open>The handshake\<close>

lemma types_app:
  assumes "map type ts = map type ts'" and "\<exists>t\<in>set ts. type t = TILE_TYPE_APP"
  shows "\<exists>t\<in>set ts'. type t = TILE_TYPE_APP"
proof -
  from assms(2) have "TILE_TYPE_APP \<in> set (map type ts)" by force
  then have "TILE_TYPE_APP \<in> set (map type ts')" by (simp only: assms(1))
  then obtain t where "t \<in> set ts'" "type t = TILE_TYPE_APP" by (auto simp: image_iff)
  then show ?thesis by blast
qed

lemma types_launchers:
  assumes "map type ts = map type ts'" and "\<forall>t\<in>set ts. type t = TILE_TYPE_LAUNCHER"
  shows "\<forall>t\<in>set ts'. type t = TILE_TYPE_LAUNCHER"
proof -
  from assms(2) have "set (map type ts) \<subseteq> {TILE_TYPE_LAUNCHER}" by auto
  then have "set (map type ts') \<subseteq> {TILE_TYPE_LAUNCHER}" by (simp only: assms(1))
  then show ?thesis by auto
qed

lemmas start_defs = main_def parse_opts_def parse_opt_def daemonize_def setup_display_def
  create_dock_window_def create_launchers_def start_dockapps_def tile_count_def
  handle_event_def handle_create_event_def handle_expose_event_def
  handle_button_press_event_def exit_usage_def pm_assert_failed_def
  plain_sys_def plain_start_def xclock_opts_def xterm_opts_def DEFAULT_BG_PATH_def
  SubstructureNotifyMask_def ExposureMask_def StructureNotifyMask_def ButtonPressMask_def
  split_def Let_def

lemma xterm_parse:
  "parse_opts plain_sys xterm_opts
     = Inr (app_init\<lparr> daemon_mode := True,
              bg_image := Some \<lparr> image_path = ''tile-default.png'', image_width = 64,
                                  image_height = 64 \<rparr>,
              tiles := [xterm_tile\<lparr> window := 0 \<rparr>] \<rparr>)"
  by (simp add: start_defs scenario_defs xterm_tile_def)

text \<open>
  The scenario of a single \<^verbatim>\<open>xclock\<close> tile in a horizontal panel with no window
  manager: start-up, then the creation of window 3, whose 48 by 48 icon window 4 is
  reparented into the panel at (8, 8); the tile is filled, the events of the root window
  are deselected and the parent is signalled. A later creation event only reads the class
  hint.
\<close>

lemma xclock_run:
  "main plain_sys plain_start xclock_opts
       [(CreateNotify 3, xclock_env), (CreateNotify 6, xclock_env)]
     = Running
         (xclock_app\<lparr> daemon_mode := True,
            bg_image := Some \<lparr> image_path = ''tile-default.png'', image_width = 64,
                                image_height = 64 \<rparr>,
            tiles := [xclock_tile\<lparr> pid := 1000, window := 4 \<rparr>] \<rparr>)
         [fork_daemon, setsid, open_dev_null, signal_SIGTERM, XOpenDisplay,
          XSetErrorHandler, XSetIOErrorHandler, XSelectInput 1 524288,
          XCreateSimpleWindow 1 0 0 64 64, XStoreName 2 ''PMDock'',
          XChangeProperty 2 ''_MOTIF_WM_HINTS'' (Longs [3, 0, 0, 0, 0]),
          XSetClassHint 2 ''pmdock'' ''PMDock'', XMapWindow 2,
          XMoveResizeWindow 2 0 0 64 64, XSelectInput 2 163840, XFlush,
          fork_execl_sh (Some ''xclock''), XGetClassHint 3,
          XGetWindowProperty 1 ''_NET_SUPPORTING_WM_CHECK'', XGetWMHints 3,
          XSetWindowBorderWidth 4 0, XGetGeometry 4, XReparentWindow 3 2 8 128,
          XReparentWindow 4 2 8 8, XMapRaised 3, XMapRaised 4, XFlush,
          XSelectInput 1 0, kill_getppid_SIGUSR1, XGetClassHint 6]"
  by (simp add: start_defs swallow_defs scenario_defs)

text \<open>
  Claim C4. Take a run of the program that got through start-up and has handled some
  events, with at least one dockapp tile, at a point where
  \<^verbatim>\<open>check_all_dockapps_swallowed\<close> holds. Over the whole run the program has sent
  \<^verbatim>\<open>SIGUSR1\<close> to its parent exactly once in daemon mode and never otherwise; it has
  deselected the events of the root window exactly once; and after that call it has made
  no call that unmaps, reparents or maps a window, whatever events followed.
\<close>

theorem handshake_sent_once:
  assumes run: "main env senv opts events = Running a tr"
      and filled: "check_all_dockapps_swallowed a"
      and app: "\<exists>t\<in>set (tiles a). type t = TILE_TYPE_APP"
  shows "count_list tr kill_getppid_SIGUSR1 = (if daemon_mode a then 1 else 0)
         \<and> count_list tr (XSelectInput (root_window a) 0) = 1
         \<and> (\<exists>tr1 tr2. tr = tr1 @ XSelectInput (root_window a) 0 # tr2
                \<and> (\<forall>c\<in>set tr2. \<not> reparent_or_map c))"
proof -
  from run obtain a4 tr0 where st: "startup env senv opts = Inr (a4, tr0)"
    and a: "a = fst (event_loop a4 events)" and tr: "tr = tr0 @ snd (event_loop a4 events)"
    by (auto simp: main_startup split: sum.splits)
  from startup_props [where env = env and senv = senv and opts = opts] st
  have m0: "\<forall>c\<in>set tr0. \<not> swallow_mark c" and u: "launchers_unnamed (tiles a4)"
    and z: "dockapps_unfilled (tiles a4)" by simp_all
  from event_loop_preserves [of a4 events]
  have ty: "map type (tiles a) = map type (tiles a4)" and d: "daemon_mode a = daemon_mode a4"
    and r: "root_window a = root_window a4" by (simp_all add: a)
  from types_app [OF ty app] obtain t where t: "t \<in> set (tiles a4)" "type t = TILE_TYPE_APP"
    by blast
  with z have "window t = 0" by (auto simp: dockapps_unfilled_def list_all_iff)
  with t have nf: "\<not> check_all_dockapps_swallowed a4"
    by (auto simp: check_all_dockapps_swallowed_def check_all_loop_iff)
  from event_loop_run [OF u nf, of events] filled obtain tr1 tr2 where
    e: "snd (event_loop a4 events) = tr1 @ closing a4 True @ tr2"
    and q: "kill_getppid_SIGUSR1 \<notin> set tr1" "XSelectInput (root_window a4) 0 \<notin> set tr1"
      "\<forall>c\<in>set tr2. inert c"
    unfolding a by auto
  note n0 = no_mark(1,2) [OF m0]
  note n2 = no_mark(1,2) [OF inert_no_mark(1) [OF q(3)]]
  let ?k = "if daemon_mode a4 then [kill_getppid_SIGUSR1] else []"
  have split: "tr = (tr0 @ tr1) @ XSelectInput (root_window a4) 0 # (?k @ tr2)"
    by (simp add: tr e closing_def)
  have c1: "count_list tr kill_getppid_SIGUSR1 = (if daemon_mode a4 then 1 else 0)"
    unfolding split using n0(1) n2(1) q(1) by simp
  have c2: "count_list tr (XSelectInput (root_window a4) 0) = 1"
    unfolding split using n0(2) n2(2) q(2) by simp
  have c3: "\<forall>c\<in>set (?k @ tr2). \<not> reparent_or_map c"
    using inert_no_mark(2) [OF q(3)] by auto
  from c1 c2 split c3 show ?thesis unfolding d r by blast
qed

text \<open>
  Claim C4 for \<^verbatim>\<open>pmdock -d -H -r xclock -c xclock -t dockapp\<close> and two creation events,
  the first of which fills the only tile.
\<close>

theorem handshake_sent_once_witness:
  "(\<exists>a tr. main plain_sys plain_start xclock_opts
                [(CreateNotify 3, xclock_env), (CreateNotify 6, xclock_env)] = Running a tr
       \<and> check_all_dockapps_swallowed a \<and> (\<exists>t\<in>set (tiles a). type t = TILE_TYPE_APP)
       \<and> daemon_mode a \<and> root_window a = 1)
   \<and> count_list (calls (main plain_sys plain_start xclock_opts
                           [(CreateNotify 3, xclock_env), (CreateNotify 6, xclock_env)]))
         kill_getppid_SIGUSR1 = 1
   \<and> count_list (calls (main plain_sys plain_start xclock_opts
                           [(CreateNotify 3, xclock_env), (CreateNotify 6, xclock_env)]))
         (XSelectInput 1 0) = 1
   \<and> (\<exists>tr1 tr2. calls (main plain_sys plain_start xclock_opts
                           [(CreateNotify 3, xclock_env), (CreateNotify 6, xclock_env)])
                    = tr1 @ XSelectInput 1 0 # tr2
          \<and> (\<forall>c\<in>set tr2. \<not> reparent_or_map c))"
proof -
  let ?a = "xclock_app\<lparr> daemon_mode := True,
            bg_image := Some \<lparr> image_path = ''tile-default.png'', image_width = 64,
                                image_height = 64 \<rparr>,
            tiles := [xclock_tile\<lparr> pid := 1000, window := 4 \<rparr>] \<rparr>"
  obtain tr where r: "main plain_sys plain_start xclock_opts
                        [(CreateNotify 3, xclock_env), (CreateNotify 6, xclock_env)]
                      = Running ?a tr"
    using xclock_run by blast
  have f: "check_all_dockapps_swallowed ?a"
    by (simp add: check_all_dockapps_swallowed_def scenario_defs)
  have t: "\<exists>t\<in>set (tiles ?a). type t = TILE_TYPE_APP" by (simp add: scenario_defs)
  have d: "daemon_mode ?a" by simp
  have w: "root_window ?a = 1" by (simp add: xclock_app_def)
  have c: "calls (main plain_sys plain_start xclock_opts
                    [(CreateNotify 3, xclock_env), (CreateNotify 6, xclock_env)]) = tr"
    by (simp only: r calls.simps)
  from handshake_sent_once [OF r f t]
  have "count_list tr kill_getppid_SIGUSR1 = 1
        \<and> count_list tr (XSelectInput 1 0) = 1
        \<and> (\<exists>tr1 tr2. tr = tr1 @ XSelectInput 1 0 # tr2 \<and> (\<forall>c\<in>set tr2. \<not> reparent_or_map c))"
    by (simp only: w if_P [OF d])
  moreover from r f t d w have "\<exists>a tr. main plain_sys plain_start xclock_opts
                [(CreateNotify 3, xclock_env), (CreateNotify 6, xclock_env)] = Running a tr
       \<and> check_all_dockapps_swallowed a \<and> (\<exists>t\<in>set (tiles a). type t = TILE_TYPE_APP)
       \<and> daemon_mode a \<and> root_window a = 1"
    by blast
  ultimately show ?thesis unfolding c by blast
qed

text \<open>
  Claim C10. When \<^verbatim>\<open>parse_opts\<close> accepts a configuration in daemon mode whose tiles
  are all launchers, then whatever the start-up answers and the events are, the program
  never sends \<^verbatim>\<open>SIGUSR1\<close>, never makes the window-manager check that opens every
  \<^verbatim>\<open>swallow_dockapp\<close> (so the completion check at its end never runs), and the paused
  parent does not exit.
\<close>

theorem launchers_only_never_signal:
  assumes p: "parse_opts env opts = Inr a0"
      and l: "\<forall>t\<in>set (tiles a0). type t = TILE_TYPE_LAUNCHER"
      and d: "daemon_mode a0"
  shows "kill_getppid_SIGUSR1 \<notin> set (calls (main env senv opts events))
         \<and> (\<forall>r p. XGetWindowProperty r p \<notin> set (calls (main env senv opts events)))
         \<and> daemonize_parent (calls (main env senv opts events)) = None"
proof -
  have m: "\<forall>c\<in>set (calls (main env senv opts events)). \<not> swallow_mark c"
  proof (cases "startup env senv opts")
    case (Inl e)
    with startup_props [where env = env and senv = senv and opts = opts] show ?thesis
      by (simp add: main_startup split_def)
  next
    case (Inr r)
    obtain a4 tr0 where r: "r = (a4, tr0)" by (cases r)
    from startup_props [where env = env and senv = senv and opts = opts] Inr r p
    have m0: "\<forall>c\<in>set tr0. \<not> swallow_mark c" and u: "launchers_unnamed (tiles a4)"
      and ty: "map type (tiles a4) = map type (tiles a0)" by simp_all
    from types_launchers [OF ty [symmetric] l]
    have f: "check_all_dockapps_swallowed a4"
      by (auto simp: check_all_dockapps_swallowed_def check_all_loop_iff)
    from event_loop_terminal [OF u f, of events]
    have "\<forall>c\<in>set (snd (event_loop a4 events)). \<not> swallow_mark c"
      by (intro inert_no_mark) simp
    with m0 Inr r show ?thesis by (simp add: main_startup ball_Un)
  qed
  from no_mark(1) [OF m] no_mark(3) [OF m] show ?thesis
    by (simp add: daemonize_parent_def)
qed

text \<open>
  Claim C10 for \<^verbatim>\<open>pmdock -d -i xterm.png -c xterm -t launcher\<close> with a creation event
  and a click on the launcher.
\<close>

theorem launchers_only_never_signal_witness:
  "(\<exists>a0. parse_opts plain_sys xterm_opts = Inr a0
       \<and> (\<forall>t\<in>set (tiles a0). type t = TILE_TYPE_LAUNCHER) \<and> daemon_mode a0)
   \<and> kill_getppid_SIGUSR1
       \<notin> set (calls (main plain_sys plain_start xterm_opts
                       [(CreateNotify 3, xclock_env), (ButtonPress 5, xclock_env)]))
   \<and> (\<forall>r p. XGetWindowProperty r p
       \<notin> set (calls (main plain_sys plain_start xterm_opts
                       [(CreateNotify 3, xclock_env), (ButtonPress 5, xclock_env)])))
   \<and> daemonize_parent (calls (main plain_sys plain_start xterm_opts
                       [(CreateNotify 3, xclock_env), (ButtonPress 5, xclock_env)])) = None"
proof -
  let ?a0 = "app_init\<lparr> daemon_mode := True,
              bg_image := Some \<lparr> image_path = ''tile-default.png'', image_width = 64,
                                  image_height = 64 \<rparr>,
              tiles := [xterm_tile\<lparr> window := 0 \<rparr>] \<rparr>"
  have p: "parse_opts plain_sys xterm_opts = Inr ?a0" by (rule xterm_parse)
  have l: "\<forall>t\<in>set (tiles ?a0). type t = TILE_TYPE_LAUNCHER" by (simp add: xterm_tile_def)
  have d: "daemon_mode ?a0" by simp
  from p l d have "\<exists>a0. parse_opts plain_sys xterm_opts = Inr a0
       \<and> (\<forall>t\<in>set (tiles a0). type t = TILE_TYPE_LAUNCHER) \<and> daemon_mode a0"
    by blast
  with launchers_only_never_signal [OF p l d, of plain_start
         "[(CreateNotify 3, xclock_env), (ButtonPress 5, xclock_env)]"]
  show ?thesis by blast
qed

end
